theory Spec2Isabelle
  imports Main "HOL-Library.Word"
begin

section \<open>Data model\<close>

text \<open>
  The file \<^verbatim>\<open>internal/psql/dataset.go\<close> is a layer of transactions over one relation,
  \<^verbatim>\<open>datasets\<close>. The relation is a list of rows; a transaction works on a private copy of
  it, which a commit makes the stored state and a rollback discards.
\<close>

type_synonym uuid = "128 word"
type_synonym timestamp = nat

datatype json =
    JNull
  | JBool bool
  | JNum int
  | JStr string
  | JArr "json list"
  | JObj "(string \<times> json) list"

text \<open>
  Errors. \<open>ErrNoRows\<close> is the driver's "no rows in result set"; \<open>EngineErr c\<close> is any other
  error of the engine or the driver, with its code; \<open>ErrNotFound\<close> and \<open>ErrNotOwner\<close> are the
  package's own errors; \<open>StorageFailure c\<close> is an engine error as \<open>handleError\<close> surfaces it;
  \<open>ModelErr c\<close> is an error returned by the \<^verbatim>\<open>models\<close> package (\<^verbatim>\<open>LookupFamily\<close>,
  \<^verbatim>\<open>SetData\<close>); \<open>NilDereference\<close> is the run-time panic of \<^verbatim>\<open>*p\<close> on a nil pointer.
\<close>

datatype error =
    ErrNoRows
  | EngineErr nat
  | ErrNotFound
  | ErrNotOwner
  | StorageFailure nat
  | ModelErr nat
  | NilDereference

text \<open>
  A row of \<^verbatim>\<open>datasets\<close>. The columns \<^verbatim>\<open>valid\<close>, \<^verbatim>\<open>family\<close> and \<^verbatim>\<open>schema\<close> are read
  through pointers (\<^verbatim>\<open>*bool\<close>, \<^verbatim>\<open>*int\<close>, \<^verbatim>\<open>*string\<close>) and \<^verbatim>\<open>blob\<close> into a byte slice,
  so they may hold SQL NULL (\<open>None\<close>); the identity columns are read into fixed arrays.
\<close>

record row =
  rid :: uuid
  creator :: uuid
  owner :: uuid
  created :: timestamp
  modified :: timestamp
  synced :: timestamp
  published :: bool
  valid :: "bool option"
  family :: "int option"
  schema :: "string option"
  blob :: "json option"
  seq :: int

text \<open>
  \<^verbatim>\<open>models.Dataset\<close>: the fields the file reads and writes, named after their accessors.
  \<open>zero_Dataset\<close> is Go's zero value, what \<^verbatim>\<open>new(models.Dataset)\<close> points to.
\<close>

record Dataset =
  Id' :: uuid
  Creator :: uuid
  Owner :: uuid
  Family :: int
  Schema :: string
  Blob :: "json option"
  Valid :: bool

definition zero_Dataset :: Dataset where
  "zero_Dataset = \<lparr>Id' = 0, Creator = 0, Owner = 0, Family = 0, Schema = [],
     Blob = None, Valid = False\<rparr>"

text \<open>
  Modelled from the spec: \<^verbatim>\<open>SetData(family, schema, blob) -> error\<close> of the Document Model
  (package \<^verbatim>\<open>models\<close>, not in this file) "validates and populates a Record from raw
  parts". The verdict of the validation is the parameter \<open>chk\<close>.
\<close>

definition SetData ::
  "(int \<Rightarrow> string \<Rightarrow> json option \<Rightarrow> error option) \<Rightarrow> Dataset \<Rightarrow> int \<Rightarrow> string \<Rightarrow> json option
    \<Rightarrow> error + Dataset" where
  "SetData chk ds f s b =
     (case chk f s b of
        Some e \<Rightarrow> Inl e
      | None \<Rightarrow> Inr (ds\<lparr>Family := f, Schema := s, Blob := b\<rparr>))"

text \<open>Modelled from the spec: \<^verbatim>\<open>SetValid(bool)\<close> of the Document Model sets the flag.\<close>

definition SetValid :: "Dataset \<Rightarrow> bool \<Rightarrow> Dataset" where
  "SetValid ds v = ds\<lparr>Valid := v\<rparr>"

text \<open>
  Modelled from the spec: \<^verbatim>\<open>handleError\<close> (package \<^verbatim>\<open>psql\<close>, not in this file). The spec's
  error taxonomy has \<open>NotFound\<close> for "no row matched the target identity" and
  \<open>StorageFailure\<close> for "any other underlying engine error", "wrapped and surfaced to the
  caller"; the package's own errors pass through.
\<close>

fun handleError :: "error \<Rightarrow> error" where
  "handleError ErrNoRows = ErrNotFound"
| "handleError (EngineErr c) = StorageFailure c"
| "handleError e = e"

section \<open>The engine: connection, transactions, statements\<close>

text \<open>
  The stored relation together with the faults the engine is going to report: every call
  that reaches the engine (\<^verbatim>\<open>Begin\<close>, \<^verbatim>\<open>Exec\<close>, \<^verbatim>\<open>QueryRow\<close>, \<^verbatim>\<open>Query\<close>, \<^verbatim>\<open>Commit\<close>) takes
  the next entry of \<open>faults\<close>; \<open>Some c\<close> makes that call fail with \<open>EngineErr c\<close>, \<open>None\<close>
  and an exhausted list let it run.
\<close>

record DB =
  datasets :: "row list"
  faults :: "nat option list"

record Tx =
  committed :: "row list"
  work :: "row list"
  pending :: "nat option list"

fun next_fault :: "nat option list \<Rightarrow> nat option \<times> nat option list" where
  "next_fault [] = (None, [])"
| "next_fault (f # fs) = (f, fs)"

definition Begin :: "DB \<Rightarrow> (error \<times> DB) + Tx" where
  "Begin db =
     (case next_fault (faults db) of
        (Some c, fs) \<Rightarrow> Inl (EngineErr c, db\<lparr>faults := fs\<rparr>)
      | (None, fs) \<Rightarrow> Inr \<lparr>committed = datasets db, work = datasets db, pending = fs\<rparr>)"

definition Rollback :: "Tx \<Rightarrow> DB" where
  "Rollback tx = \<lparr>datasets = committed tx, faults = pending tx\<rparr>"

text \<open>
  \<^verbatim>\<open>tx.Commit()\<close>, with the deferred \<^verbatim>\<open>tx.Rollback()\<close> that follows it: a no-op after a
  successful commit; after a failed one nothing of the transaction is stored.
\<close>

definition Commit :: "Tx \<Rightarrow> error option \<times> DB" where
  "Commit tx =
     (case next_fault (pending tx) of
        (Some c, fs) \<Rightarrow> (Some (EngineErr c), \<lparr>datasets = committed tx, faults = fs\<rparr>)
      | (None, fs) \<Rightarrow> (None, \<lparr>datasets = work tx, faults = fs\<rparr>))"

text \<open>
  \<^verbatim>\<open>tx.Exec\<close>: a statement is a function from the relation to an error or the new relation
  with the number of rows affected.
\<close>

definition Exec :: "Tx \<Rightarrow> (row list \<Rightarrow> error + row list \<times> nat) \<Rightarrow> (error + nat) \<times> Tx" where
  "Exec tx stmt =
     (case next_fault (pending tx) of
        (Some c, fs) \<Rightarrow> (Inl (EngineErr c), tx\<lparr>pending := fs\<rparr>)
      | (None, fs) \<Rightarrow>
          (case stmt (work tx) of
             Inl e \<Rightarrow> (Inl e, tx\<lparr>pending := fs\<rparr>)
           | Inr (rows', n) \<Rightarrow> (Inr n, tx\<lparr>work := rows', pending := fs\<rparr>)))"

text \<open>
  \<^verbatim>\<open>QueryRow(...)\<close>: the first row the query selects, or \<open>ErrNoRows\<close> when \<^verbatim>\<open>Scan\<close> finds
  none.
\<close>

definition QueryRow :: "row list \<Rightarrow> nat option list \<Rightarrow> uuid \<Rightarrow> (error + row) \<times> nat option list" where
  "QueryRow rows fs i =
     (case next_fault fs of
        (Some c, fs') \<Rightarrow> (Inl (EngineErr c), fs')
      | (None, fs') \<Rightarrow>
          (case find (\<lambda>r. rid r = i) rows of
             None \<Rightarrow> (Inl ErrNoRows, fs')
           | Some r \<Rightarrow> (Inr r, fs')))"

text \<open>\<^verbatim>\<open>UPDATE datasets SET ... WHERE id = $1\<close>: every row with that id is rewritten.\<close>

definition sql_update :: "uuid \<Rightarrow> (row \<Rightarrow> row) \<Rightarrow> row list \<Rightarrow> error + row list \<times> nat" where
  "sql_update i f rows =
     Inr (map (\<lambda>r. if rid r = i then f r else r) rows, length (filter (\<lambda>r. rid r = i) rows))"

text \<open>
  Modelled from the spec: \<^verbatim>\<open>id\<close> is the relation's unique key (the table definition is not
  in this file), so the stored relation never holds two rows with one id.
\<close>

definition wf_table :: "row list \<Rightarrow> bool" where
  "wf_table rows = distinct (map rid rows)"

section \<open>Mutation primitives\<close>

text \<open>
  \<^verbatim>\<open>UPDATE datasets SET modified = now(), seq = seq + 1, blob = $2 WHERE id = $1\<close>
\<close>

definition update :: "Tx \<Rightarrow> uuid \<Rightarrow> json \<Rightarrow> timestamp \<Rightarrow> error option \<times> Tx" where
  "update tx i b now =
     (case Exec tx (sql_update i (\<lambda>r. r\<lparr>modified := now, seq := seq r + 1, blob := Some b\<rparr>)) of
        (Inl e, tx') \<Rightarrow> (Some e, tx')
      | (Inr ct, tx') \<Rightarrow> if ct \<noteq> 1 then (Some ErrNotFound, tx') else (None, tx'))"

definition Update :: "DB \<Rightarrow> uuid \<Rightarrow> json \<Rightarrow> timestamp \<Rightarrow> error option \<times> DB" where
  "Update db i b now =
     (case Begin db of
        Inl (e, db') \<Rightarrow> (Some e, db')
      | Inr tx \<Rightarrow>
          (case update tx i b now of
             (Some e, tx') \<Rightarrow> (Some (handleError e), Rollback tx')
           | (None, tx') \<Rightarrow> Commit tx'))"

text \<open>
  \<^verbatim>\<open>UPDATE datasets SET synced = now(), seq = seq + 1, blob = $2 WHERE id = $1\<close>
\<close>

definition updateByService :: "Tx \<Rightarrow> uuid \<Rightarrow> json \<Rightarrow> timestamp \<Rightarrow> error option \<times> Tx" where
  "updateByService tx i b now =
     (case Exec tx (sql_update i (\<lambda>r. r\<lparr>synced := now, seq := seq r + 1, blob := Some b\<rparr>)) of
        (Inl e, tx') \<Rightarrow> (Some e, tx')
      | (Inr ct, tx') \<Rightarrow> if ct \<noteq> 1 then (Some ErrNotFound, tx') else (None, tx'))"

text \<open>
  The engine's \<^verbatim>\<open>||\<close> on \<^verbatim>\<open>jsonb\<close> values, as its manual defines it: two objects give
  the union of their keys with the right operand's value where both have the key; two
  arrays are appended; in every other case a non-array operand is first wrapped in a
  one-element array. An object is read with \<open>map_of\<close>. With a NULL operand the result is
  NULL.
\<close>

fun obj_put :: "string \<Rightarrow> json \<Rightarrow> (string \<times> json) list \<Rightarrow> (string \<times> json) list" where
  "obj_put k v [] = [(k, v)]"
| "obj_put k v ((k', v') # kvs) =
     (if k = k' then (k, v) # kvs else (k', v') # obj_put k v kvs)"

fun obj_merge :: "(string \<times> json) list \<Rightarrow> (string \<times> json) list \<Rightarrow> (string \<times> json) list" where
  "obj_merge a [] = a"
| "obj_merge a ((k, v) # p) = obj_put k v (obj_merge a p)"

fun jsonb_concat :: "json \<Rightarrow> json \<Rightarrow> json" where
  "jsonb_concat (JObj a) (JObj p) = JObj (obj_merge a p)"
| "jsonb_concat (JArr a) (JArr p) = JArr (a @ p)"
| "jsonb_concat (JArr a) y = JArr (a @ [y])"
| "jsonb_concat x (JArr p) = JArr (x # p)"
| "jsonb_concat x y = JArr [x, y]"

text \<open>
  \<^verbatim>\<open>UPDATE datasets SET modified = now(), seq = seq + 1, blob = blob || $2 WHERE id = $1\<close>
\<close>

definition patch :: "Tx \<Rightarrow> uuid \<Rightarrow> json \<Rightarrow> timestamp \<Rightarrow> error option \<times> Tx" where
  "patch tx i b now =
     (case Exec tx (sql_update i (\<lambda>r. r\<lparr>modified := now, seq := seq r + 1,
                      blob := map_option (\<lambda>old. jsonb_concat old b) (blob r)\<rparr>)) of
        (Inl e, tx') \<Rightarrow> (Some e, tx')
      | (Inr ct, tx') \<Rightarrow> if ct \<noteq> 1 then (Some ErrNotFound, tx') else (None, tx'))"

definition Patch :: "DB \<Rightarrow> uuid \<Rightarrow> json \<Rightarrow> timestamp \<Rightarrow> error option \<times> DB" where
  "Patch db i b now =
     (case Begin db of
        Inl (e, db') \<Rightarrow> (Some e, db')
      | Inr tx \<Rightarrow>
          (case patch tx i b now of
             (Some e, tx') \<Rightarrow> (Some (handleError e), Rollback tx')
           | (None, tx') \<Rightarrow> Commit tx'))"

section \<open>Ownership guard\<close>

text \<open>
  \<^verbatim>\<open>SELECT (owner = $2) FROM datasets WHERE id = $1\<close>, scanned into \<^verbatim>\<open>isOwner\<close>.
\<close>

definition Tx_CheckOwner :: "Tx \<Rightarrow> uuid \<Rightarrow> uuid \<Rightarrow> error option \<times> Tx" where
  "Tx_CheckOwner tx i own =
     (case QueryRow (work tx) (pending tx) i of
        (Inl e, fs) \<Rightarrow> (Some (handleError e), tx\<lparr>pending := fs\<rparr>)
      | (Inr r, fs) \<Rightarrow>
          (let isOwner = (owner r = own)
           in if \<not> isOwner then (Some ErrNotOwner, tx\<lparr>pending := fs\<rparr>)
              else (None, tx\<lparr>pending := fs\<rparr>)))"

definition DB_CheckOwner :: "DB \<Rightarrow> uuid \<Rightarrow> uuid \<Rightarrow> error option \<times> DB" where
  "DB_CheckOwner db i own =
     (case Begin db of
        Inl (e, db') \<Rightarrow> (Some e, db')
      | Inr tx \<Rightarrow> (case Tx_CheckOwner tx i own of (res, tx') \<Rightarrow> (res, Rollback tx')))"

definition UpdateWithOwner :: "DB \<Rightarrow> uuid \<Rightarrow> json \<Rightarrow> uuid \<Rightarrow> timestamp \<Rightarrow> error option \<times> DB" where
  "UpdateWithOwner db i b own now =
     (case Begin db of
        Inl (e, db') \<Rightarrow> (Some e, db')
      | Inr tx \<Rightarrow>
          (case Tx_CheckOwner tx i own of
             (Some e, tx') \<Rightarrow> (Some e, Rollback tx')
           | (None, tx') \<Rightarrow>
               (case update tx' i b now of
                  (Some e, tx'') \<Rightarrow> (Some (handleError e), Rollback tx'')
                | (None, tx'') \<Rightarrow> Commit tx'')))"

definition PatchWithOwner :: "DB \<Rightarrow> uuid \<Rightarrow> json \<Rightarrow> uuid \<Rightarrow> timestamp \<Rightarrow> error option \<times> DB" where
  "PatchWithOwner db i b own now =
     (case Begin db of
        Inl (e, db') \<Rightarrow> (Some e, db')
      | Inr tx \<Rightarrow>
          (case Tx_CheckOwner tx i own of
             (Some e, tx') \<Rightarrow> (Some e, Rollback tx')
           | (None, tx') \<Rightarrow>
               (case patch tx' i b now of
                  (Some e, tx'') \<Rightarrow> (Some (handleError e), Rollback tx'')
                | (None, tx'') \<Rightarrow> Commit tx'')))"

section \<open>Policy dispatcher\<close>

text \<open>
  \<^verbatim>\<open>SELECT family FROM datasets WHERE id = $1\<close>, scanned into \<^verbatim>\<open>var fam int\<close>: the driver
  cannot store NULL there and reports it (\<open>scan_null\<close>).
\<close>

definition scan_null :: nat where
  "scan_null = 1"

definition getFamily :: "Tx \<Rightarrow> uuid \<Rightarrow> (error + int) \<times> Tx" where
  "getFamily tx i =
     (case QueryRow (work tx) (pending tx) i of
        (Inl e, fs) \<Rightarrow> (Inl (handleError e), tx\<lparr>pending := fs\<rparr>)
      | (Inr r, fs) \<Rightarrow>
          (case family r of
             None \<Rightarrow> (Inl (handleError (EngineErr scan_null)), tx\<lparr>pending := fs\<rparr>)
           | Some fam \<Rightarrow> (Inr fam, tx\<lparr>pending := fs\<rparr>)))"

text \<open>
  \<^verbatim>\<open>models.LookupFamily\<close> is not in this file; it is the parameter \<open>LookupFamily\<close>, and
  what it returns is a descriptor with \<^verbatim>\<open>IsPartial()\<close> and \<^verbatim>\<open>Key()\<close>.
\<close>

record family_descriptor =
  IsPartial :: bool
  Key :: string

definition SmartUpdateWithOwner ::
  "(int \<Rightarrow> error + family_descriptor) \<Rightarrow> DB \<Rightarrow> uuid \<Rightarrow> json \<Rightarrow> uuid \<Rightarrow> timestamp
    \<Rightarrow> error option \<times> DB" where
  "SmartUpdateWithOwner LookupFamily db i b own now =
     (case Begin db of
        Inl (e, db') \<Rightarrow> (Some e, db')
      | Inr tx \<Rightarrow>
          (case Tx_CheckOwner tx i own of
             (Some e, tx1) \<Rightarrow> (Some e, Rollback tx1)
           | (None, tx1) \<Rightarrow>
               (case getFamily tx1 i of
                  (Inl e, tx2) \<Rightarrow> (Some e, Rollback tx2)
                | (Inr famId, tx2) \<Rightarrow>
                    (case LookupFamily famId of
                       Inl e \<Rightarrow> (Some e, Rollback tx2)
                     | Inr fam \<Rightarrow>
                         (case (if IsPartial fam then patch tx2 i b now else update tx2 i b now) of
                            (Some e, tx3) \<Rightarrow> (Some (handleError e), Rollback tx3)
                          | (None, tx3) \<Rightarrow> Commit tx3)))))"

section \<open>Lifecycle operations\<close>

text \<open>\<^verbatim>\<open>UPDATE datasets SET owner = $1 WHERE id = $2\<close>; the command tag is only logged.\<close>

definition ChangeOwnerTo :: "DB \<Rightarrow> uuid \<Rightarrow> uuid \<Rightarrow> error option \<times> DB" where
  "ChangeOwnerTo db i uid =
     (case Begin db of
        Inl (e, db') \<Rightarrow> (Some e, db')
      | Inr tx \<Rightarrow>
          (case Exec tx (sql_update i (\<lambda>r. r\<lparr>owner := uid\<rparr>)) of
             (Inl e, tx') \<Rightarrow> (Some (handleError e), Rollback tx')
           | (Inr tag, tx') \<Rightarrow> Commit tx'))"

text \<open>
  \<^verbatim>\<open>INSERT INTO datasets(id, creator, owner, family, schema, blob) VALUES(...)\<close>. The
  columns the statement does not name take the defaults of the table definition, which is
  not in this file: they are the parameter \<open>dflt\<close>. A second row with a stored id violates
  the unique key (\<open>unique_violation\<close>).
\<close>

definition unique_violation :: nat where
  "unique_violation = 23505"

definition sql_insert :: "row \<Rightarrow> row list \<Rightarrow> error + row list \<times> nat" where
  "sql_insert r rows =
     (if rid r \<in> rid ` set rows then Inl (EngineErr unique_violation)
      else Inr (rows @ [r], 1))"

definition Tx_Store :: "row \<Rightarrow> Tx \<Rightarrow> Dataset \<Rightarrow> error option \<times> Tx" where
  "Tx_Store dflt tx dataset =
     (case Exec tx (sql_insert (dflt\<lparr>rid := Id' dataset, creator := Creator dataset,
                      owner := Owner dataset, family := Some (Family dataset),
                      schema := Some (Schema dataset), blob := Blob dataset\<rparr>)) of
        (Inl e, tx') \<Rightarrow> (Some e, tx')
      | (Inr ct, tx') \<Rightarrow> (None, tx'))"

definition DB_Store :: "row \<Rightarrow> DB \<Rightarrow> Dataset \<Rightarrow> error option \<times> DB" where
  "DB_Store dflt db dataset =
     (case Begin db of
        Inl (e, db') \<Rightarrow> (Some e, db')
      | Inr tx \<Rightarrow>
          (case Tx_Store dflt tx dataset of
             (Some e, tx') \<Rightarrow> (Some (handleError e), Rollback tx')
           | (None, tx') \<Rightarrow> Commit tx'))"

text \<open>The loop of \<^verbatim>\<open>BatchStore\<close>: it stops at the first insert that fails.\<close>

fun store_each :: "row \<Rightarrow> Tx \<Rightarrow> Dataset list \<Rightarrow> error option \<times> Tx" where
  "store_each dflt tx [] = (None, tx)"
| "store_each dflt tx (dataset # rest) =
     (case Tx_Store dflt tx dataset of
        (Some e, tx') \<Rightarrow> (Some e, tx')
      | (None, tx') \<Rightarrow> store_each dflt tx' rest)"

definition BatchStore :: "row \<Rightarrow> DB \<Rightarrow> Dataset list \<Rightarrow> error option \<times> DB" where
  "BatchStore dflt db dss =
     (case Begin db of
        Inl (e, db') \<Rightarrow> (Some e, db')
      | Inr tx \<Rightarrow>
          (case store_each dflt tx dss of
             (Some e, tx') \<Rightarrow> (Some e, Rollback tx')
           | (None, tx') \<Rightarrow> Commit tx'))"

text \<open>
  \<^verbatim>\<open>UPDATE datasets SET blob = $2, published = true, synced = now(), seq = seq + 1 WHERE id = $1\<close>
\<close>

definition StorePublished :: "DB \<Rightarrow> uuid \<Rightarrow> json \<Rightarrow> timestamp \<Rightarrow> error option \<times> DB" where
  "StorePublished db i b now =
     (case Begin db of
        Inl (e, db') \<Rightarrow> (Some e, db')
      | Inr tx \<Rightarrow>
          (case Exec tx (sql_update i (\<lambda>r. r\<lparr>blob := Some b, published := True, synced := now,
                           seq := seq r + 1\<rparr>)) of
             (Inl e, tx') \<Rightarrow> (Some (handleError e), Rollback tx')
           | (Inr ct, tx') \<Rightarrow>
               if ct \<noteq> 1 then (Some ErrNotFound, Rollback tx') else Commit tx'))"

text \<open>
  \<^verbatim>\<open>INSERT INTO datasets(id, creator, owner, created, modified, synced, published, valid,
  family, schema, blob) (SELECT $2, creator, owner, created, modified, synced, published,
  valid, family, schema, $3 WHERE id = $1)\<close>.
  \<open>from_items\<close> are the relations of the SELECT's FROM clause. The column names of the
  SELECT can only refer to these: with none of them providing the columns, the engine
  rejects the statement when it analyses it (\<open>undefined_column\<close>), whatever the relation
  holds. Otherwise the selected rows are inserted under the new id with the new blob,
  \<^verbatim>\<open>seq\<close> taking its default.
\<close>

definition undefined_column :: nat where
  "undefined_column = 42703"

definition sql_insert_select ::
  "string list \<Rightarrow> row \<Rightarrow> uuid \<Rightarrow> uuid \<Rightarrow> json \<Rightarrow> row list \<Rightarrow> error + row list \<times> nat" where
  "sql_insert_select from_items dflt i newid b rows =
     (if ''datasets'' \<notin> set from_items then Inl (EngineErr undefined_column)
      else
        (let new = map (\<lambda>r. r\<lparr>rid := newid, blob := Some b, seq := seq dflt\<rparr>)
                     (filter (\<lambda>r. rid r = i) rows)
         in if new = [] then Inr (rows, 0)
            else if newid \<in> rid ` set rows \<or> 1 < length new
              then Inl (EngineErr unique_violation)
            else Inr (rows @ new, length new)))"

text \<open>The statement of \<^verbatim>\<open>Clone\<close> has no FROM clause.\<close>

definition Clone :: "row \<Rightarrow> DB \<Rightarrow> uuid \<Rightarrow> uuid \<Rightarrow> json \<Rightarrow> error option \<times> DB" where
  "Clone dflt db i newid b =
     (case Begin db of
        Inl (e, db') \<Rightarrow> (Some e, db')
      | Inr tx \<Rightarrow>
          (case Exec tx (sql_insert_select [] dflt i newid b) of
             (Inl e, tx') \<Rightarrow> (Some (handleError e), Rollback tx')
           | (Inr ct, tx') \<Rightarrow>
               if ct \<noteq> 1 then (Some ErrNotFound, Rollback tx') else Commit tx'))"

text \<open>
  \<^verbatim>\<open>UPDATE datasets SET published = $2, synced = $3 WHERE id = $1\<close>, with \<^verbatim>\<open>time.Now()\<close>
  for \<^verbatim>\<open>$3\<close>.
\<close>

definition markPublished :: "Tx \<Rightarrow> uuid \<Rightarrow> bool \<Rightarrow> timestamp \<Rightarrow> error option \<times> Tx" where
  "markPublished tx i p now =
     (case Exec tx (sql_update i (\<lambda>r. r\<lparr>published := p, synced := now\<rparr>)) of
        (Inl e, tx') \<Rightarrow> (Some e, tx')
      | (Inr ct, tx') \<Rightarrow> if ct \<noteq> 1 then (Some ErrNotFound, tx') else (None, tx'))"

definition MarkPublished :: "DB \<Rightarrow> uuid \<Rightarrow> bool \<Rightarrow> timestamp \<Rightarrow> error option \<times> DB" where
  "MarkPublished db i p now =
     (case Begin db of
        Inl (e, db') \<Rightarrow> (Some e, db')
      | Inr tx \<Rightarrow>
          (case markPublished tx i p now of
             (Some e, tx') \<Rightarrow> (Some e, Rollback tx')
           | (None, tx') \<Rightarrow> Commit tx'))"

definition MarkPublishedWithOwner ::
  "DB \<Rightarrow> uuid \<Rightarrow> uuid \<Rightarrow> bool \<Rightarrow> timestamp \<Rightarrow> error option \<times> DB" where
  "MarkPublishedWithOwner db i own p now =
     (case Begin db of
        Inl (e, db') \<Rightarrow> (Some e, db')
      | Inr tx \<Rightarrow>
          (case Tx_CheckOwner tx i own of
             (Some e, tx') \<Rightarrow> (Some e, Rollback tx')
           | (None, tx') \<Rightarrow>
               (case markPublished tx' i p now of
                  (Some e, tx'') \<Rightarrow> (Some e, Rollback tx'')
                | (None, tx'') \<Rightarrow> Commit tx'')))"

text \<open>\<^verbatim>\<open>DELETE FROM datasets WHERE id = $1\<close>\<close>

definition sql_delete :: "uuid \<Rightarrow> row list \<Rightarrow> error + row list \<times> nat" where
  "sql_delete i rows =
     Inr (filter (\<lambda>r. rid r \<noteq> i) rows, length (filter (\<lambda>r. rid r = i) rows))"

definition Delete :: "DB \<Rightarrow> uuid \<Rightarrow> uuid option \<Rightarrow> error option \<times> DB" where
  "Delete db i own =
     (case Begin db of
        Inl (e, db') \<Rightarrow> (Some e, db')
      | Inr tx \<Rightarrow>
          (case (case own of None \<Rightarrow> (None, tx) | Some ow \<Rightarrow> Tx_CheckOwner tx i ow) of
             (Some e, tx') \<Rightarrow> (Some (handleError e), Rollback tx')
           | (None, tx') \<Rightarrow>
               (case Exec tx' (sql_delete i) of
                  (Inl e, tx'') \<Rightarrow> (Some (handleError e), Rollback tx'')
                | (Inr ct, tx'') \<Rightarrow>
                    if ct \<noteq> 1 then (Some ErrNotFound, Rollback tx'') else Commit tx'')))"

section \<open>Read path\<close>

text \<open>
  \<^verbatim>\<open>db.pool.QueryRow("select id, creator, owner, valid, family, schema, blob ...").Scan(...)\<close>
  then \<^verbatim>\<open>res.SetData(*family, *schema, blob)\<close> and \<^verbatim>\<open>res.SetValid(*valid)\<close>. The
  arguments \<^verbatim>\<open>*family\<close> and \<^verbatim>\<open>*schema\<close> are evaluated before \<^verbatim>\<open>SetData\<close> runs, \<^verbatim>\<open>*valid\<close>
  only after \<^verbatim>\<open>SetData\<close> has returned without error.
\<close>

definition Get ::
  "(int \<Rightarrow> string \<Rightarrow> json option \<Rightarrow> error option) \<Rightarrow> DB \<Rightarrow> uuid \<Rightarrow> (error + Dataset) \<times> DB" where
  "Get chk db i =
     (case QueryRow (datasets db) (faults db) i of
        (Inl e, fs) \<Rightarrow> (Inl (handleError e), db\<lparr>faults := fs\<rparr>)
      | (Inr r, fs) \<Rightarrow>
          (let res = zero_Dataset\<lparr>Id' := rid r, Creator := creator r, Owner := owner r\<rparr>;
               db' = db\<lparr>faults := fs\<rparr>
           in case family r of
                None \<Rightarrow> (Inl NilDereference, db')
              | Some f \<Rightarrow>
                  (case schema r of
                     None \<Rightarrow> (Inl NilDereference, db')
                   | Some s \<Rightarrow>
                       (case SetData chk res f s (blob r) of
                          Inl e \<Rightarrow> (Inl e, db')
                        | Inr res' \<Rightarrow>
                            (case valid r of
                               None \<Rightarrow> (Inl NilDereference, db')
                             | Some v \<Rightarrow> (Inr (SetValid res' v), db'))))))"

text \<open>
  The engine's \<^verbatim>\<open>#>\<close> with the one-element path \<^verbatim>\<open>{key}\<close>: the value of an object at that
  key, NULL where there is none. (The key of a family names a field; a path element
  selects from an array only when it is an integer.)
\<close>

fun jsonb_extract_path :: "json \<Rightarrow> string \<Rightarrow> json option" where
  "jsonb_extract_path (JObj kvs) key = map_of kvs key"
| "jsonb_extract_path j key = None"

text \<open>
  \<^verbatim>\<open>tx.get(id, key)\<close>: the whole blob when \<^verbatim>\<open>key\<close> is empty, \<^verbatim>\<open>blob#>$2\<close> otherwise; the
  \<^verbatim>\<open>valid\<close> column is not read.
\<close>

definition get ::
  "(int \<Rightarrow> string \<Rightarrow> json option \<Rightarrow> error option) \<Rightarrow> Tx \<Rightarrow> uuid \<Rightarrow> string
    \<Rightarrow> (error + Dataset) \<times> Tx" where
  "get chk tx i key =
     (case QueryRow (work tx) (pending tx) i of
        (Inl e, fs) \<Rightarrow> (Inl (handleError e), tx\<lparr>pending := fs\<rparr>)
      | (Inr r, fs) \<Rightarrow>
          (let res = zero_Dataset\<lparr>Id' := rid r, Creator := creator r, Owner := owner r\<rparr>;
               b = (if key = [] then blob r
                    else (case blob r of None \<Rightarrow> None | Some j \<Rightarrow> jsonb_extract_path j key));
               tx' = tx\<lparr>pending := fs\<rparr>
           in case family r of
                None \<Rightarrow> (Inl NilDereference, tx')
              | Some f \<Rightarrow>
                  (case schema r of
                     None \<Rightarrow> (Inl NilDereference, tx')
                   | Some s \<Rightarrow>
                       (case SetData chk res f s b of
                          Inl e \<Rightarrow> (Inl e, tx')
                        | Inr res' \<Rightarrow> (Inr res', tx')))))"

definition GetWithOwner ::
  "(int \<Rightarrow> string \<Rightarrow> json option \<Rightarrow> error option) \<Rightarrow> DB \<Rightarrow> uuid \<Rightarrow> uuid
    \<Rightarrow> (error + Dataset) \<times> DB" where
  "GetWithOwner chk db i own =
     (case Begin db of
        Inl (e, db') \<Rightarrow> (Inl e, db')
      | Inr tx \<Rightarrow>
          (case Tx_CheckOwner tx i own of
             (Some e, tx') \<Rightarrow> (Inl e, Rollback tx')
           | (None, tx') \<Rightarrow> (case get chk tx' i [] of (res, tx'') \<Rightarrow> (res, Rollback tx''))))"

definition SmartGetWithOwner ::
  "(int \<Rightarrow> error + family_descriptor) \<Rightarrow> (int \<Rightarrow> string \<Rightarrow> json option \<Rightarrow> error option)
    \<Rightarrow> DB \<Rightarrow> uuid \<Rightarrow> uuid \<Rightarrow> (error + Dataset) \<times> DB" where
  "SmartGetWithOwner LookupFamily chk db i own =
     (case Begin db of
        Inl (e, db') \<Rightarrow> (Inl e, db')
      | Inr tx \<Rightarrow>
          (case Tx_CheckOwner tx i own of
             (Some e, tx1) \<Rightarrow> (Inl e, Rollback tx1)
           | (None, tx1) \<Rightarrow>
               (case getFamily tx1 i of
                  (Inl e, tx2) \<Rightarrow> (Inl e, Rollback tx2)
                | (Inr famId, tx2) \<Rightarrow>
                    (case LookupFamily famId of
                       Inl e \<Rightarrow> (Inl e, Rollback tx2)
                     | Inr fam \<Rightarrow>
                         (case get chk tx2 i (if IsPartial fam then Key fam else []) of
                            (res, tx3) \<Rightarrow> (res, Rollback tx3))))))"

text \<open>
  \<^verbatim>\<open>ListAllForUid\<close>. \<^verbatim>\<open>rows.Scan(dataset.Id, dataset.Creator, dataset.Owner, family,
  schema, valid)\<close> receives copies of the six variables, not their addresses. The driver
  has no location to store a column into and reports it (\<open>scan_target\<close>); the variables
  keep their zero values in any case. The error of \<^verbatim>\<open>dataset.SetData\<close> is not assigned,
  and \<^verbatim>\<open>SetValid\<close> is not called.
\<close>

datatype dest = Pointer | Value

definition scan_target :: nat where
  "scan_target = 2"

definition Scan :: "dest list \<Rightarrow> row \<Rightarrow> error option" where
  "Scan dests r = (if Value \<in> set dests then Some (EngineErr scan_target) else None)"

fun list_rows ::
  "(int \<Rightarrow> string \<Rightarrow> json option \<Rightarrow> error option) \<Rightarrow> row list \<Rightarrow> Dataset list
    \<Rightarrow> error + Dataset list" where
  "list_rows chk [] list = Inr list"
| "list_rows chk (r # rs) list =
     (case Scan [Value, Value, Value, Value, Value, Value] r of
        Some e \<Rightarrow> Inl e
      | None \<Rightarrow>
          (let dataset = (case SetData chk zero_Dataset 0 [] None of
                            Inl e \<Rightarrow> zero_Dataset
                          | Inr d \<Rightarrow> d)
           in list_rows chk rs (list @ [dataset])))"

definition ListAllForUid ::
  "(int \<Rightarrow> string \<Rightarrow> json option \<Rightarrow> error option) \<Rightarrow> DB \<Rightarrow> uuid
    \<Rightarrow> (error + Dataset list) \<times> DB" where
  "ListAllForUid chk db uid =
     (case next_fault (faults db) of
        (Some c, fs) \<Rightarrow> (Inl (EngineErr c), db\<lparr>faults := fs\<rparr>)
      | (None, fs) \<Rightarrow>
          (list_rows chk (filter (\<lambda>r. owner r = uid) (datasets db)) [], db\<lparr>faults := fs\<rparr>))"

section \<open>Sequences of operations\<close>

text \<open>
  The mutating operations of the file, each with the clock reading of its call, and the
  states a sequence of them goes through.
\<close>

datatype op =
    OpChangeOwnerTo uuid uuid
  | OpStore Dataset
  | OpBatchStore "Dataset list"
  | OpUpdate uuid json
  | OpUpdateWithOwner uuid json uuid
  | OpPatch uuid json
  | OpPatchWithOwner uuid json uuid
  | OpSmartUpdateWithOwner uuid json uuid
  | OpStorePublished uuid json
  | OpClone uuid uuid json
  | OpMarkPublished uuid bool
  | OpMarkPublishedWithOwner uuid uuid bool
  | OpDelete uuid "uuid option"

fun apply_op ::
  "(int \<Rightarrow> error + family_descriptor) \<Rightarrow> row \<Rightarrow> DB \<Rightarrow> op \<times> timestamp \<Rightarrow> error option \<times> DB" where
  "apply_op L dflt db (OpChangeOwnerTo i uid, now) = ChangeOwnerTo db i uid"
| "apply_op L dflt db (OpStore dataset, now) = DB_Store dflt db dataset"
| "apply_op L dflt db (OpBatchStore dss, now) = BatchStore dflt db dss"
| "apply_op L dflt db (OpUpdate i b, now) = Update db i b now"
| "apply_op L dflt db (OpUpdateWithOwner i b own, now) = UpdateWithOwner db i b own now"
| "apply_op L dflt db (OpPatch i b, now) = Patch db i b now"
| "apply_op L dflt db (OpPatchWithOwner i b own, now) = PatchWithOwner db i b own now"
| "apply_op L dflt db (OpSmartUpdateWithOwner i b own, now) =
     SmartUpdateWithOwner L db i b own now"
| "apply_op L dflt db (OpStorePublished i b, now) = StorePublished db i b now"
| "apply_op L dflt db (OpClone i newid b, now) = Clone dflt db i newid b"
| "apply_op L dflt db (OpMarkPublished i p, now) = MarkPublished db i p now"
| "apply_op L dflt db (OpMarkPublishedWithOwner i own p, now) =
     MarkPublishedWithOwner db i own p now"
| "apply_op L dflt db (OpDelete i own, now) = Delete db i own"

fun trace ::
  "(int \<Rightarrow> error + family_descriptor) \<Rightarrow> row \<Rightarrow> DB \<Rightarrow> (op \<times> timestamp) list \<Rightarrow> DB list" where
  "trace L dflt db [] = [db]"
| "trace L dflt db (x # xs) = db # trace L dflt (snd (apply_op L dflt db x)) xs"

text \<open>The target of a content-mutating write, and of a publish-only transition.\<close>

fun content_write :: "op \<Rightarrow> uuid option" where
  "content_write (OpUpdate i b) = Some i"
| "content_write (OpUpdateWithOwner i b own) = Some i"
| "content_write (OpPatch i b) = Some i"
| "content_write (OpPatchWithOwner i b own) = Some i"
| "content_write (OpSmartUpdateWithOwner i b own) = Some i"
| "content_write (OpStorePublished i b) = Some i"
| "content_write x = None"

fun publish_only :: "op \<Rightarrow> (uuid \<times> bool) option" where
  "publish_only (OpMarkPublished i p) = Some (i, p)"
| "publish_only (OpMarkPublishedWithOwner i own p) = Some (i, p)"
| "publish_only x = None"

definition lookup_row :: "DB \<Rightarrow> uuid \<Rightarrow> row option" where
  "lookup_row db i = find (\<lambda>r. rid r = i) (datasets db)"

definition seq_of :: "DB \<Rightarrow> uuid \<Rightarrow> int option" where
  "seq_of db i = map_option seq (lookup_row db i)"

section \<open>Example data\<close>

definition row_a :: row where
  "row_a = \<lparr>rid = 1, creator = 7, owner = 7, created = 10, modified = 10, synced = 0,
     published = False, valid = Some True, family = Some 2, schema = Some ''metax'',
     blob = Some (JObj [(''title'', JStr ''old''), (''meta'', JObj [(''lang'', JStr ''fi'')])]),
     seq = 0\<rparr>"

definition row_default :: row where
  "row_default = \<lparr>rid = 0, creator = 0, owner = 0, created = 30, modified = 30, synced = 0,
     published = False, valid = Some False, family = None, schema = None, blob = None,
     seq = 0\<rparr>"

definition db_a :: DB where
  "db_a = \<lparr>datasets = [row_a], faults = []\<rparr>"

definition row_b :: row where
  "row_b = \<lparr>rid = 3, creator = 7, owner = 7, created = 11, modified = 11, synced = 0,
     published = False, valid = Some True, family = Some 1, schema = Some ''metax'',
     blob = Some (JObj [(''title'', JStr ''old''), (''note'', JStr ''n'')]),
     seq = 4\<rparr>"

definition db_ab :: DB where
  "db_ab = \<lparr>datasets = [row_a, row_b], faults = []\<rparr>"

definition dataset_of :: "uuid \<Rightarrow> Dataset" where
  "dataset_of i = \<lparr>Id' = i, Creator = 7, Owner = 7, Family = 1, Schema = ''metax'',
     Blob = Some (JObj []), Valid = False\<rparr>"

definition accept_all :: "int \<Rightarrow> string \<Rightarrow> json option \<Rightarrow> error option" where
  "accept_all f s b = None"

text \<open>A table of families with one partial family (2) and one that is not (1).\<close>

definition two_families :: "int \<Rightarrow> error + family_descriptor" where
  "two_families famId =
     (if famId = 1 then Inr \<lparr>IsPartial = False, Key = []\<rparr>
      else if famId = 2 then Inr \<lparr>IsPartial = True, Key = ''dataset''\<rparr>
      else Inl (ModelErr 1))"

text \<open>
  A validation that accepts the data of the families of \<open>two_families\<close> and no other, and
  rows with NULL columns or an unknown family.
\<close>

definition known_families_only :: "int \<Rightarrow> string \<Rightarrow> json option \<Rightarrow> error option" where
  "known_families_only f s b = (case two_families f of Inl e \<Rightarrow> Some e | Inr d \<Rightarrow> None)"

definition row_null_valid :: row where
  "row_null_valid = \<lparr>rid = 5, creator = 7, owner = 7, created = 12, modified = 12, synced = 0,
     published = False, valid = None, family = Some 9, schema = Some ''metax'',
     blob = Some (JObj []), seq = 0\<rparr>"

definition row_null_family :: row where
  "row_null_family = \<lparr>rid = 6, creator = 7, owner = 7, created = 12, modified = 12, synced = 0,
     published = False, valid = Some True, family = None, schema = Some ''metax'',
     blob = Some (JObj []), seq = 0\<rparr>"

definition row_unknown_family :: row where
  "row_unknown_family = \<lparr>rid = 8, creator = 7, owner = 7, created = 12, modified = 12,
     synced = 0, published = False, valid = Some True, family = Some 9,
     schema = Some ''metax'', blob = Some (JObj []), seq = 0\<rparr>"

definition db_nulls :: DB where
  "db_nulls = \<lparr>datasets = [row_null_valid, row_null_family, row_unknown_family], faults = []\<rparr>"

section \<open>Facts about the relation\<close>

lemma find_rid_None_filter:
  "find (\<lambda>r. rid r = i) rows = None \<Longrightarrow> filter (\<lambda>r. rid r = i) rows = []"
  by (induction rows) (auto split: if_splits)

lemma find_rid_Some_filter:
  "wf_table rows \<Longrightarrow> find (\<lambda>r. rid r = i) rows = Some r \<Longrightarrow> filter (\<lambda>r. rid r = i) rows = [r]"
proof (induction rows)
  case Nil
  then show ?case by simp
next
  case (Cons a rows)
  show ?case
  proof (cases "rid a = i")
    case True
    with Cons.prems have "a = r" and "i \<notin> rid ` set rows"
      by (auto simp: wf_table_def)
    then have "filter (\<lambda>r. rid r = i) rows = []"
      by (auto simp: filter_empty_conv)
    with True \<open>a = r\<close> show ?thesis by simp
  next
    case False
    with Cons show ?thesis by (simp add: wf_table_def)
  qed
qed

lemma find_map_update_same:
  "(\<And>r. rid (f r) = rid r) \<Longrightarrow>
   find (\<lambda>r. rid r = i) (map (\<lambda>r. if rid r = i then f r else r) rows)
     = map_option f (find (\<lambda>r. rid r = i) rows)"
  by (induction rows) auto

lemma find_map_update_other:
  "(\<And>r. rid (f r) = rid r) \<Longrightarrow> j \<noteq> i \<Longrightarrow>
   find (\<lambda>r. rid r = j) (map (\<lambda>r. if rid r = i then f r else r) rows)
     = find (\<lambda>r. rid r = j) rows"
  by (induction rows) auto

lemma map_update_absent:
  "find (\<lambda>r. rid r = i) rows = None \<Longrightarrow> map (\<lambda>r. if rid r = i then f r else r) rows = rows"
  by (induction rows) (auto split: if_splits)

lemma wf_table_map_update:
  "(\<And>r. rid (f r) = rid r) \<Longrightarrow> wf_table rows \<Longrightarrow>
   wf_table (map (\<lambda>r. if rid r = i then f r else r) rows)"
proof -
  assume h: "\<And>r. rid (f r) = rid r" and wf: "wf_table rows"
  have "map rid (map (\<lambda>r. if rid r = i then f r else r) rows) = map rid rows"
    by (induction rows) (auto simp: h)
  with wf show ?thesis unfolding wf_table_def by (simp only:)
qed

section \<open>Transactions on a healthy engine\<close>

lemma Begin_ok: "faults db = [] \<Longrightarrow> Begin db = Inr \<lparr>committed = datasets db, work = datasets db, pending = []\<rparr>"
  by (simp add: Begin_def)

lemma Exec_ok: "pending tx = [] \<Longrightarrow> Exec tx stmt =
   (case stmt (work tx) of Inl e \<Rightarrow> (Inl e, tx) | Inr (rows', n) \<Rightarrow> (Inr n, tx\<lparr>work := rows'\<rparr>))"
  by (simp add: Exec_def split: sum.splits)

lemma Commit_ok: "pending tx = [] \<Longrightarrow> Commit tx = (None, \<lparr>datasets = work tx, faults = []\<rparr>)"
  by (simp add: Commit_def)

lemma QueryRow_ok: "QueryRow rows [] i =
   (case find (\<lambda>r. rid r = i) rows of None \<Rightarrow> (Inl ErrNoRows, []) | Some r \<Rightarrow> (Inr r, []))"
  by (simp add: QueryRow_def)

section \<open>Full replace\<close>

lemma Update_present:
  assumes wf: "wf_table (datasets db)" and nf: "faults db = []"
    and r: "lookup_row db i = Some r"
  shows "Update db i b now = (None, db\<lparr>datasets := map (\<lambda>x. if rid x = i then x\<lparr>modified := now, seq := seq x + 1, blob := Some b\<rparr> else x) (datasets db)\<rparr>)"
  using find_rid_Some_filter[OF wf r[unfolded lookup_row_def]] nf
  by (simp add: Update_def Begin_ok update_def Exec_ok sql_update_def Commit_ok)

lemma Update_absent:
  assumes nf: "faults db = []"
    and r: "lookup_row db i = None"
  shows "Update db i b now = (Some ErrNotFound, db)"
  using find_rid_None_filter[OF r[unfolded lookup_row_def]] nf
  by (simp add: Update_def Begin_ok update_def Exec_ok sql_update_def Rollback_def)

lemma Get_present:
  assumes nf: "faults db = []" and r: "lookup_row db i = Some r"
    and "family r = Some f" "schema r = Some s" "valid r = Some v" "chk f s (blob r) = None"
  shows "Get chk db i = (Inr \<lparr>Id' = rid r, Creator = creator r, Owner = owner r, Family = f, Schema = s, Blob = blob r, Valid = v\<rparr>, db)"
  using assms by (simp add: Get_def QueryRow_ok lookup_row_def SetData_def SetValid_def zero_Dataset_def)

lemma find_rid: "find (\<lambda>r. rid r = i) rows = Some r \<Longrightarrow> rid r = i"
  by (auto simp: find_Some_iff)

text \<open>
  C3. On a healthy engine and a relation with unique ids, \<open>Update\<close> of an existing record
  succeeds; the stored row then has exactly the new blob, \<open>seq\<close> one higher and \<open>modified\<close>
  set to the clock reading, every other record is as before, and \<open>Get\<close> returns the new
  blob; when no row has the id, \<open>Update\<close> fails with \<open>ErrNotFound\<close> and stores nothing.
\<close>

theorem Update_then_Get:
  assumes wf: "wf_table (datasets db)" and nf: "faults db = []"
    and U: "Update db i b now = (res, db')"
  shows "(\<forall>r. lookup_row db i = Some r \<longrightarrow>
            res = None \<and>
            lookup_row db' i = Some (r\<lparr>modified := now, seq := seq r + 1, blob := Some b\<rparr>) \<and>
            (\<forall>j. j \<noteq> i \<longrightarrow> lookup_row db' j = lookup_row db j) \<and>
            (\<forall>f s v. family r = Some f \<and> schema r = Some s \<and> valid r = Some v \<and>
                     chk f s (Some b) = None \<longrightarrow>
               fst (Get chk db' i) = Inr \<lparr>Id' = i, Creator = creator r, Owner = owner r,
                 Family = f, Schema = s, Blob = Some b, Valid = v\<rparr>)) \<and>
         (lookup_row db i = None \<longrightarrow> res = Some ErrNotFound \<and> db' = db)"
proof (intro conjI allI impI)
  fix r assume r: "lookup_row db i = Some r"
  let ?f = "\<lambda>x. x\<lparr>modified := now, seq := seq x + 1, blob := Some b\<rparr>"
  let ?db = "db\<lparr>datasets := map (\<lambda>x. if rid x = i then ?f x else x) (datasets db)\<rparr>"
  have "(res, db') = (None, ?db)"
    using Update_present[OF wf nf r, of b now] U by (simp only:)
  then have res: "res = None" and db': "db' = ?db"
    by (simp_all only: prod.inject)
  show "res = None" by (rule res)
  show l': "lookup_row db' i = Some (?f r)"
    using r by (simp add: db' lookup_row_def find_map_update_same)
  show "lookup_row db' j = lookup_row db j" if "j \<noteq> i" for j
    using that by (simp add: db' lookup_row_def find_map_update_other)
  show "fst (Get chk db' i) = Inr \<lparr>Id' = i, Creator = creator r, Owner = owner r,
                 Family = f, Schema = s, Blob = Some b, Valid = v\<rparr>"
    if h: "family r = Some f \<and> schema r = Some s \<and> valid r = Some v \<and> chk f s (Some b) = None"
    for f s v
  proof -
    have nf': "faults db' = []" using nf by (simp add: db')
    have ri: "rid r = i" using r unfolding lookup_row_def by (rule find_rid)
    have "Get chk db' i = (Inr \<lparr>Id' = rid (?f r), Creator = creator (?f r), Owner = owner (?f r),
        Family = f, Schema = s, Blob = blob (?f r), Valid = v\<rparr>, db')"
      using h by (intro Get_present[OF nf' l']) simp_all
    then show ?thesis by (simp add: ri)
  qed
next
  assume "lookup_row db i = None"
  from Update_absent[OF nf this, of b now] U show "res = Some ErrNotFound" and "db' = db"
    by simp_all
qed

theorem Update_then_Get_witness:
  "wf_table (datasets db_a) \<and> faults db_a = [] \<and>
   lookup_row db_a 1 = Some row_a \<and>
   Update db_a 1 (JObj [(''title'', JStr ''new'')]) 20
     = (None, \<lparr>datasets = [row_a\<lparr>modified := 20, seq := 1, blob := Some (JObj [(''title'', JStr ''new'')])\<rparr>], faults = []\<rparr>) \<and>
   fst (Get accept_all \<lparr>datasets = [row_a\<lparr>modified := 20, seq := 1, blob := Some (JObj [(''title'', JStr ''new'')])\<rparr>], faults = []\<rparr> 1)
     = Inr \<lparr>Id' = 1, Creator = 7, Owner = 7, Family = 2, Schema = ''metax'',
            Blob = Some (JObj [(''title'', JStr ''new'')]), Valid = True\<rparr> \<and>
   lookup_row db_a 2 = None \<and>
   Update db_a 2 (JObj []) 20 = (Some ErrNotFound, db_a)"
proof -
  let ?b = "JObj [(''title'', JStr ''new'')]"
  let ?db' = "\<lparr>datasets = [row_a\<lparr>modified := 20, seq := 1, blob := Some ?b\<rparr>], faults = []\<rparr>"
  have wf: "wf_table (datasets db_a)" by (simp add: wf_table_def db_a_def)
  have nf: "faults db_a = []" by (simp add: db_a_def)
  have l1: "lookup_row db_a 1 = Some row_a" by (simp add: lookup_row_def db_a_def row_a_def)
  have l2: "lookup_row db_a 2 = None" by (simp add: lookup_row_def db_a_def row_a_def)
  have E: "Update db_a 1 ?b 20 = (None, ?db')"
    by (simp add: Update_def Begin_def update_def Exec_def sql_update_def Commit_def db_a_def row_a_def)
  have fam: "family row_a = Some 2 \<and> schema row_a = Some ''metax'' \<and> valid row_a = Some True \<and>
      accept_all 2 ''metax'' (Some ?b) = None"
    by (simp add: row_a_def accept_all_def)
  have "fst (Get accept_all ?db' 1) = Inr \<lparr>Id' = 1, Creator = creator row_a, Owner = owner row_a,
            Family = 2, Schema = ''metax'', Blob = Some ?b, Valid = True\<rparr>"
    using Update_then_Get[OF wf nf E, of accept_all] l1 fam by blast
  then have G: "fst (Get accept_all ?db' 1) = Inr \<lparr>Id' = 1, Creator = 7, Owner = 7,
            Family = 2, Schema = ''metax'', Blob = Some ?b, Valid = True\<rparr>"
    by (simp add: row_a_def)
  obtain res2 db2 where U2: "Update db_a 2 (JObj []) 20 = (res2, db2)"
    by (cases "Update db_a 2 (JObj []) 20")
  from Update_then_Get[OF wf nf U2, of accept_all] l2
  have "res2 = Some ErrNotFound \<and> db2 = db_a" by blast
  with U2 have N: "Update db_a 2 (JObj []) 20 = (Some ErrNotFound, db_a)" by simp
  from wf nf l1 E G l2 N show ?thesis by (intro conjI)
qed

section \<open>Merge patch\<close>

lemma map_of_obj_put: "map_of (obj_put k v a) = (map_of a)(k \<mapsto> v)"
  by (induction a) (auto simp: fun_eq_iff)

lemma map_of_obj_merge:
  "map_of (obj_merge a p) k = (case map_of p k of Some v \<Rightarrow> Some v | None \<Rightarrow> map_of a k)"
  by (induction p) (auto simp: map_of_obj_put)

lemma Patch_present:
  assumes wf: "wf_table (datasets db)" and nf: "faults db = []"
    and r: "lookup_row db i = Some r"
  shows "Patch db i p now = (None, db\<lparr>datasets := map (\<lambda>x. if rid x = i then x\<lparr>modified := now, seq := seq x + 1, blob := map_option (\<lambda>old. jsonb_concat old p) (blob x)\<rparr> else x) (datasets db)\<rparr>)"
  using find_rid_Some_filter[OF wf r[unfolded lookup_row_def]] nf
  by (simp add: Patch_def Begin_ok patch_def Exec_ok sql_update_def Commit_ok)

lemma Patch_absent:
  assumes nf: "faults db = []"
    and r: "lookup_row db i = None"
  shows "Patch db i p now = (Some ErrNotFound, db)"
  using find_rid_None_filter[OF r[unfolded lookup_row_def]] nf
  by (simp add: Patch_def Begin_ok patch_def Exec_ok sql_update_def Rollback_def)

text \<open>
C2. On a healthy engine and a relation with unique ids, \<open>Patch\<close> of an existing record
  succeeds; the stored row then has the blob \<^verbatim>\<open>blob || p\<close>, \<open>seq\<close> one higher and
  \<open>modified\<close> set to the clock reading, and every other record is as before. For an object
  blob and an object patch the new blob is the object whose value at a key is the patch's
  where the patch has the key and the old blob's otherwise (values are taken whole, never
  merged), and \<open>Get\<close> returns it. When no row has the id, \<open>Patch\<close> fails with
  \<open>ErrNotFound\<close> and stores nothing.
\<close>

theorem Patch_then_Get:
  assumes wf: "wf_table (datasets db)" and nf: "faults db = []"
    and U: "Patch db i p now = (res, db')"
  shows "(\<forall>r. lookup_row db i = Some r \<longrightarrow>
            res = None \<and>
            lookup_row db' i = Some (r\<lparr>modified := now, seq := seq r + 1,
              blob := map_option (\<lambda>old. jsonb_concat old p) (blob r)\<rparr>) \<and>
            (\<forall>j. j \<noteq> i \<longrightarrow> lookup_row db' j = lookup_row db j) \<and>
            (\<forall>a kvs. blob r = Some (JObj a) \<and> p = JObj kvs \<longrightarrow>
               map_option blob (lookup_row db' i) = Some (Some (JObj (obj_merge a kvs))) \<and>
               (\<forall>k. map_of (obj_merge a kvs) k =
                  (case map_of kvs k of Some v \<Rightarrow> Some v | None \<Rightarrow> map_of a k)) \<and>
               (\<forall>f s v. family r = Some f \<and> schema r = Some s \<and> valid r = Some v \<and>
                     chk f s (Some (JObj (obj_merge a kvs))) = None \<longrightarrow>
                  fst (Get chk db' i) = Inr \<lparr>Id' = i, Creator = creator r, Owner = owner r,
                    Family = f, Schema = s, Blob = Some (JObj (obj_merge a kvs)), Valid = v\<rparr>))) \<and>
         (lookup_row db i = None \<longrightarrow> res = Some ErrNotFound \<and> db' = db)"
proof (intro conjI allI impI)
  fix r assume r: "lookup_row db i = Some r"
  let ?f = "\<lambda>x. x\<lparr>modified := now, seq := seq x + 1,
              blob := map_option (\<lambda>old. jsonb_concat old p) (blob x)\<rparr>"
  let ?db = "db\<lparr>datasets := map (\<lambda>x. if rid x = i then ?f x else x) (datasets db)\<rparr>"
  have "(res, db') = (None, ?db)"
    using Patch_present[OF wf nf r, of p now] U by (simp only:)
  then have res: "res = None" and db': "db' = ?db"
    by (simp_all only: prod.inject)
  show "res = None" by (rule res)
  show l': "lookup_row db' i = Some (?f r)"
    using r by (simp add: db' lookup_row_def find_map_update_same)
  show "lookup_row db' j = lookup_row db j" if "j \<noteq> i" for j
    using that by (simp add: db' lookup_row_def find_map_update_other)
  show "map_option blob (lookup_row db' i) = Some (Some (JObj (obj_merge a kvs)))"
    if "blob r = Some (JObj a) \<and> p = JObj kvs" for a kvs
    using that by (simp add: l')
  show "map_of (obj_merge a kvs) k =
          (case map_of kvs k of Some v \<Rightarrow> Some v | None \<Rightarrow> map_of a k)" for a kvs k
    by (rule map_of_obj_merge)
  show "fst (Get chk db' i) = Inr \<lparr>Id' = i, Creator = creator r, Owner = owner r,
                 Family = f, Schema = s, Blob = Some (JObj (obj_merge a kvs)), Valid = v\<rparr>"
    if o: "blob r = Some (JObj a) \<and> p = JObj kvs"
      and h: "family r = Some f \<and> schema r = Some s \<and> valid r = Some v \<and>
              chk f s (Some (JObj (obj_merge a kvs))) = None"
    for a kvs f s v
  proof -
    have nf': "faults db' = []" using nf by (simp add: db')
    have ri: "rid r = i" using r unfolding lookup_row_def by (rule find_rid)
    have "Get chk db' i = (Inr \<lparr>Id' = rid (?f r), Creator = creator (?f r), Owner = owner (?f r),
        Family = f, Schema = s, Blob = blob (?f r), Valid = v\<rparr>, db')"
      using h o by (intro Get_present[OF nf' l']) simp_all
    then show ?thesis using o by (simp add: ri)
  qed
next
  assume "lookup_row db i = None"
  from Patch_absent[OF nf this, of p now] U show "res = Some ErrNotFound" and "db' = db"
    by simp_all
qed

theorem Patch_then_Get_witness:
  "wf_table (datasets db_a) \<and> faults db_a = [] \<and>
   lookup_row db_a 1 = Some row_a \<and>
   Patch db_a 1 (JObj [(''meta'', JObj [(''x'', JNum 1)]), (''extra'', JBool True)]) 20
     = (None, \<lparr>datasets = [row_a\<lparr>modified := 20, seq := 1,
          blob := Some (JObj [(''title'', JStr ''old''), (''meta'', JObj [(''x'', JNum 1)]),
                              (''extra'', JBool True)])\<rparr>], faults = []\<rparr>) \<and>
   fst (Get accept_all \<lparr>datasets = [row_a\<lparr>modified := 20, seq := 1,
          blob := Some (JObj [(''title'', JStr ''old''), (''meta'', JObj [(''x'', JNum 1)]),
                              (''extra'', JBool True)])\<rparr>], faults = []\<rparr> 1)
     = Inr \<lparr>Id' = 1, Creator = 7, Owner = 7, Family = 2, Schema = ''metax'',
            Blob = Some (JObj [(''title'', JStr ''old''), (''meta'', JObj [(''x'', JNum 1)]),
                               (''extra'', JBool True)]), Valid = True\<rparr> \<and>
   lookup_row db_a 2 = None \<and>
   Patch db_a 2 (JObj []) 20 = (Some ErrNotFound, db_a)"
proof -
  let ?a = "[(''title'', JStr ''old''), (''meta'', JObj [(''lang'', JStr ''fi'')])]"
  let ?kvs = "[(''meta'', JObj [(''x'', JNum 1)]), (''extra'', JBool True)]"
  let ?m = "[(''title'', JStr ''old''), (''meta'', JObj [(''x'', JNum 1)]), (''extra'', JBool True)]"
  let ?db' = "\<lparr>datasets = [row_a\<lparr>modified := 20, seq := 1, blob := Some (JObj ?m)\<rparr>], faults = []\<rparr>"
  have wf: "wf_table (datasets db_a)" by (simp add: wf_table_def db_a_def)
  have nf: "faults db_a = []" by (simp add: db_a_def)
  have l1: "lookup_row db_a 1 = Some row_a" by (simp add: lookup_row_def db_a_def row_a_def)
  have l2: "lookup_row db_a 2 = None" by (simp add: lookup_row_def db_a_def row_a_def)
  have E: "Patch db_a 1 (JObj ?kvs) 20 = (None, ?db')"
    by (simp add: Patch_def Begin_def patch_def Exec_def sql_update_def Commit_def db_a_def row_a_def)
  have m: "obj_merge ?a ?kvs = ?m" by simp
  have fam: "blob row_a = Some (JObj ?a) \<and> JObj ?kvs = JObj ?kvs"
    "family row_a = Some 2 \<and> schema row_a = Some ''metax'' \<and> valid row_a = Some True \<and>
      accept_all 2 ''metax'' (Some (JObj (obj_merge ?a ?kvs))) = None"
    by (simp_all add: row_a_def accept_all_def)
  have "fst (Get accept_all ?db' 1) = Inr \<lparr>Id' = 1, Creator = creator row_a, Owner = owner row_a,
            Family = 2, Schema = ''metax'', Blob = Some (JObj (obj_merge ?a ?kvs)), Valid = True\<rparr>"
    using Patch_then_Get[OF wf nf E, of accept_all] l1 fam by blast
  then have G: "fst (Get accept_all ?db' 1) = Inr \<lparr>Id' = 1, Creator = 7, Owner = 7,
            Family = 2, Schema = ''metax'', Blob = Some (JObj ?m), Valid = True\<rparr>"
    by (simp add: row_a_def)
  obtain res2 db2 where U2: "Patch db_a 2 (JObj []) 20 = (res2, db2)"
    by (cases "Patch db_a 2 (JObj []) 20")
  from Patch_then_Get[OF wf nf U2, of accept_all] l2
  have "res2 = Some ErrNotFound \<and> db2 = db_a" by blast
  with U2 have N: "Patch db_a 2 (JObj []) 20 = (Some ErrNotFound, db_a)" by simp
  from wf nf l1 E G l2 N show ?thesis by (intro conjI)
qed

section \<open>Ownership guard: verdicts\<close>

lemma find_rid_mem: "find (\<lambda>r. rid r = i) rows = Some r \<Longrightarrow> r \<in> set rows"
  by (induction rows) (auto split: if_splits)

lemma find_rid_unique:
  "wf_table rows \<Longrightarrow> r \<in> set rows \<Longrightarrow> find (\<lambda>x. rid x = rid r) rows = Some r"
  by (induction rows) (auto simp: wf_table_def)

lemma Tx_CheckOwner_ok:
  "pending tx = [] \<Longrightarrow> Tx_CheckOwner tx i p =
     (case find (\<lambda>r. rid r = i) (work tx) of
        None \<Rightarrow> (Some ErrNotFound, tx)
      | Some r \<Rightarrow> (if owner r = p then None else Some ErrNotOwner, tx))"
  by (simp add: Tx_CheckOwner_def QueryRow_ok split: option.splits)

lemma DB_CheckOwner_ok:
  "faults db = [] \<Longrightarrow> DB_CheckOwner db i p =
     (case lookup_row db i of
        None \<Rightarrow> (Some ErrNotFound, db)
      | Some r \<Rightarrow> (if owner r = p then None else Some ErrNotOwner, db))"
  by (simp add: DB_CheckOwner_def Begin_ok Tx_CheckOwner_ok Rollback_def lookup_row_def
           split: option.splits)

text \<open>
C4. On a healthy engine and a relation with unique ids, \<open>CheckOwner\<close> succeeds exactly
  when a record with the id exists and its owner is the principal; it fails with
  \<open>ErrNotFound\<close> when no record has the id and with \<open>ErrNotOwner\<close> when the record exists
  with another owner. It stores nothing, and \<^verbatim>\<open>tx.CheckOwner\<close> inside a transaction on
  the same relation gives the same verdict.
\<close>

theorem CheckOwner_iff:
  assumes wf: "wf_table (datasets db)" and nf: "faults db = []"
  shows "(fst (DB_CheckOwner db i p) = None \<longleftrightarrow>
            (\<exists>r \<in> set (datasets db). rid r = i \<and> owner r = p)) \<and>
         (lookup_row db i = None \<longrightarrow> fst (DB_CheckOwner db i p) = Some ErrNotFound) \<and>
         (\<forall>r. lookup_row db i = Some r \<and> owner r \<noteq> p \<longrightarrow>
            fst (DB_CheckOwner db i p) = Some ErrNotOwner) \<and>
         snd (DB_CheckOwner db i p) = db \<and>
         (\<forall>tx. work tx = datasets db \<and> pending tx = [] \<longrightarrow>
            Tx_CheckOwner tx i p = (fst (DB_CheckOwner db i p), tx))"
proof (intro conjI allI impI)
  show "fst (DB_CheckOwner db i p) = None \<longleftrightarrow>
          (\<exists>r \<in> set (datasets db). rid r = i \<and> owner r = p)"
  proof
    assume "fst (DB_CheckOwner db i p) = None"
    then obtain r where r: "lookup_row db i = Some r" and o: "owner r = p"
      by (auto simp: DB_CheckOwner_ok[OF nf] split: option.splits if_splits)
    from r have "r \<in> set (datasets db)" "rid r = i"
      unfolding lookup_row_def by (rule find_rid_mem, rule find_rid)
    with o show "\<exists>r \<in> set (datasets db). rid r = i \<and> owner r = p" by blast
  next
    assume "\<exists>r \<in> set (datasets db). rid r = i \<and> owner r = p"
    then obtain r where "r \<in> set (datasets db)" and ri: "rid r = i" and o: "owner r = p"
      by blast
    with find_rid_unique[OF wf] have "lookup_row db i = Some r"
      unfolding lookup_row_def by blast
    with o show "fst (DB_CheckOwner db i p) = None"
      by (simp add: DB_CheckOwner_ok[OF nf])
  qed
  show "fst (DB_CheckOwner db i p) = Some ErrNotFound" if "lookup_row db i = None"
    using that by (simp add: DB_CheckOwner_ok[OF nf])
  show "fst (DB_CheckOwner db i p) = Some ErrNotOwner"
    if "lookup_row db i = Some r \<and> owner r \<noteq> p" for r
    using that by (simp add: DB_CheckOwner_ok[OF nf])
  show "snd (DB_CheckOwner db i p) = db"
    by (simp add: DB_CheckOwner_ok[OF nf] split: option.splits)
  show "Tx_CheckOwner tx i p = (fst (DB_CheckOwner db i p), tx)"
    if "work tx = datasets db \<and> pending tx = []" for tx
    using that by (simp add: DB_CheckOwner_ok[OF nf] Tx_CheckOwner_ok lookup_row_def
        split: option.splits)
qed

theorem CheckOwner_iff_witness:
  "wf_table (datasets db_a) \<and> faults db_a = [] \<and>
   (\<exists>r \<in> set (datasets db_a). rid r = 1 \<and> owner r = 7) \<and>
   DB_CheckOwner db_a 1 7 = (None, db_a) \<and>
   lookup_row db_a 1 = Some row_a \<and> owner row_a \<noteq> 8 \<and>
   DB_CheckOwner db_a 1 8 = (Some ErrNotOwner, db_a) \<and>
   lookup_row db_a 2 = None \<and>
   DB_CheckOwner db_a 2 7 = (Some ErrNotFound, db_a)"
proof -
  have wf: "wf_table (datasets db_a)" by (simp add: wf_table_def db_a_def)
  have nf: "faults db_a = []" by (simp add: db_a_def)
  have l1: "lookup_row db_a 1 = Some row_a" by (simp add: lookup_row_def db_a_def row_a_def)
  have l2: "lookup_row db_a 2 = None" by (simp add: lookup_row_def db_a_def row_a_def)
  have o: "owner row_a \<noteq> 8" by (simp add: row_a_def)
  have ex: "\<exists>r \<in> set (datasets db_a). rid r = 1 \<and> owner r = 7"
    by (simp add: db_a_def row_a_def)
  note T = CheckOwner_iff[OF wf nf]
  have a: "fst (DB_CheckOwner db_a 1 7) = None" using T[of 1 7] ex by blast
  have a': "snd (DB_CheckOwner db_a 1 7) = db_a" using T[of 1 7] by blast
  have b: "fst (DB_CheckOwner db_a 1 8) = Some ErrNotOwner" using T[of 1 8] l1 o by blast
  have b': "snd (DB_CheckOwner db_a 1 8) = db_a" using T[of 1 8] by blast
  have c: "fst (DB_CheckOwner db_a 2 7) = Some ErrNotFound" using T[of 2 7] l2 by blast
  have c': "snd (DB_CheckOwner db_a 2 7) = db_a" using T[of 2 7] by blast
  have A: "DB_CheckOwner db_a 1 7 = (None, db_a)" using a a' by (simp add: prod_eq_iff)
  have B: "DB_CheckOwner db_a 1 8 = (Some ErrNotOwner, db_a)" using b b' by (simp add: prod_eq_iff)
  have C: "DB_CheckOwner db_a 2 7 = (Some ErrNotFound, db_a)" using c c' by (simp add: prod_eq_iff)
  from wf nf ex A l1 o B l2 C show ?thesis by (intro conjI)
qed

section \<open>Transactions on any engine\<close>

lemma next_fault_cases:
  obtains (ok) fs where "next_fault xs = (None, fs)"
  | (fault) c fs where "next_fault xs = (Some c, fs)"
  by (cases "next_fault xs"; cases "fst (next_fault xs)") auto

lemma Begin_Inl: "Begin db = Inl (e, db') \<Longrightarrow> (\<exists>c. e = EngineErr c) \<and> datasets db' = datasets db"
  by (cases "faults db" rule: next_fault_cases) (auto simp: Begin_def)

lemma Begin_Inr: "Begin db = Inr tx \<Longrightarrow> committed tx = datasets db \<and> work tx = datasets db"
  by (cases "faults db" rule: next_fault_cases) (auto simp: Begin_def)

lemma Exec_Inl:
  "Exec tx stmt = (Inl e, tx') \<Longrightarrow>
     committed tx' = committed tx \<and> ((\<exists>c. e = EngineErr c) \<or> stmt (work tx) = Inl e)"
  by (cases "pending tx" rule: next_fault_cases) (auto simp: Exec_def split: sum.splits)

lemma Exec_Inr:
  "Exec tx stmt = (Inr n, tx') \<Longrightarrow>
     committed tx' = committed tx \<and> stmt (work tx) = Inr (work tx', n)"
  by (cases "pending tx" rule: next_fault_cases) (auto simp: Exec_def split: sum.splits)

lemma Commit_Some:
  "Commit tx = (Some e, db') \<Longrightarrow> (\<exists>c. e = EngineErr c) \<and> datasets db' = committed tx"
  by (cases "pending tx" rule: next_fault_cases) (auto simp: Commit_def)

lemma Commit_None: "Commit tx = (None, db') \<Longrightarrow> datasets db' = work tx"
  by (cases "pending tx" rule: next_fault_cases) (auto simp: Commit_def)

lemma datasets_Rollback: "datasets (Rollback tx) = committed tx"
  by (simp add: Rollback_def)

section \<open>Ownership transfer\<close>

lemma ChangeOwnerTo_ok:
  "faults db = [] \<Longrightarrow> ChangeOwnerTo db i uid =
     (None, db\<lparr>datasets := map (\<lambda>r. if rid r = i then r\<lparr>owner := uid\<rparr> else r) (datasets db)\<rparr>)"
  by (simp add: ChangeOwnerTo_def Begin_ok Exec_ok sql_update_def Commit_ok)

lemma ChangeOwnerTo_error:
  assumes "ChangeOwnerTo db i uid = (Some e, db')"
  shows "((\<exists>c. e = EngineErr c) \<or> (\<exists>c. e = StorageFailure c)) \<and> datasets db' = datasets db"
proof (cases "Begin db")
  case (Inl a)
  then obtain e0 db0 where "Begin db = Inl (e0, db0)" by (cases a) auto
  with assms Begin_Inl[OF this] show ?thesis by (auto simp: ChangeOwnerTo_def)
next
  case (Inr tx)
  note B = Begin_Inr[OF Inr]
  obtain x tx' where X: "Exec tx (sql_update i (\<lambda>r. r\<lparr>owner := uid\<rparr>)) = (x, tx')"
    by (cases "Exec tx (sql_update i (\<lambda>r. r\<lparr>owner := uid\<rparr>))")
  show ?thesis
  proof (cases x)
    case (Inl e1)
    with X have X': "Exec tx (sql_update i (\<lambda>r. r\<lparr>owner := uid\<rparr>)) = (Inl e1, tx')" by simp
    from Exec_Inl[OF X'] have "committed tx' = committed tx" "\<exists>c. e1 = EngineErr c"
      by (auto simp: sql_update_def)
    with assms Inr X Inl B show ?thesis
      by (auto simp: ChangeOwnerTo_def datasets_Rollback)
  next
    case (Inr n)
    with X have X': "Exec tx (sql_update i (\<lambda>r. r\<lparr>owner := uid\<rparr>)) = (Inr n, tx')" by simp
    from Exec_Inr[OF X'] have c: "committed tx' = committed tx" by simp
    from assms \<open>Begin db = Inr tx\<close> X Inr have "Commit tx' = (Some e, db')"
      by (simp add: ChangeOwnerTo_def)
    from Commit_Some[OF this] c B show ?thesis by simp
  qed
qed

text \<open>
C9. On a healthy engine \<open>ChangeOwnerTo\<close> always succeeds: the rows with the id get the new
  owner and nothing else in the relation changes (every other column of that record,
  \<open>seq\<close>, \<open>blob\<close> and \<open>published\<close> among them, and every other record); when no record has
  the id it still succeeds and the relation is as before. No count of affected rows is
  checked: the only errors \<open>ChangeOwnerTo\<close> returns are those of the engine (from
  \<^verbatim>\<open>Begin\<close>, \<^verbatim>\<open>Exec\<close> or \<^verbatim>\<open>Commit\<close>), and then nothing is stored.
\<close>

theorem ChangeOwnerTo_frame:
  "(faults db = [] \<longrightarrow>
      ChangeOwnerTo db i uid =
        (None, db\<lparr>datasets := map (\<lambda>r. if rid r = i then r\<lparr>owner := uid\<rparr> else r) (datasets db)\<rparr>) \<and>
      (\<forall>j. lookup_row (snd (ChangeOwnerTo db i uid)) j =
            (if j = i then map_option (\<lambda>r. r\<lparr>owner := uid\<rparr>) (lookup_row db i)
             else lookup_row db j)) \<and>
      (lookup_row db i = None \<longrightarrow> ChangeOwnerTo db i uid = (None, db))) \<and>
   (\<forall>e. fst (ChangeOwnerTo db i uid) = Some e \<longrightarrow>
      ((\<exists>c. e = EngineErr c) \<or> (\<exists>c. e = StorageFailure c)) \<and>
      datasets (snd (ChangeOwnerTo db i uid)) = datasets db)"
proof (intro conjI allI impI)
  assume nf: "faults db = []"
  show "ChangeOwnerTo db i uid =
        (None, db\<lparr>datasets := map (\<lambda>r. if rid r = i then r\<lparr>owner := uid\<rparr> else r) (datasets db)\<rparr>)"
    by (rule ChangeOwnerTo_ok[OF nf])
  show "lookup_row (snd (ChangeOwnerTo db i uid)) j =
            (if j = i then map_option (\<lambda>r. r\<lparr>owner := uid\<rparr>) (lookup_row db i)
             else lookup_row db j)" for j
    by (simp add: ChangeOwnerTo_ok[OF nf] lookup_row_def find_map_update_same
        find_map_update_other)
  show "ChangeOwnerTo db i uid = (None, db)" if "lookup_row db i = None"
    using that by (simp add: ChangeOwnerTo_ok[OF nf] lookup_row_def map_update_absent)
next
  fix e assume "fst (ChangeOwnerTo db i uid) = Some e"
  then have "ChangeOwnerTo db i uid = (Some e, snd (ChangeOwnerTo db i uid))"
    by (simp add: prod_eq_iff)
  from ChangeOwnerTo_error[OF this]
  show "(\<exists>c. e = EngineErr c) \<or> (\<exists>c. e = StorageFailure c)"
    and "datasets (snd (ChangeOwnerTo db i uid)) = datasets db" by simp_all
qed

theorem ChangeOwnerTo_frame_witness:
  "faults db_a = [] \<and>
   ChangeOwnerTo db_a 1 9 = (None, \<lparr>datasets = [row_a\<lparr>owner := 9\<rparr>], faults = []\<rparr>) \<and>
   lookup_row db_a 2 = None \<and>
   ChangeOwnerTo db_a 2 9 = (None, db_a) \<and>
   fst (ChangeOwnerTo (db_a\<lparr>faults := [None, Some 53300]\<rparr>) 1 9) = Some (StorageFailure 53300) \<and>
   datasets (snd (ChangeOwnerTo (db_a\<lparr>faults := [None, Some 53300]\<rparr>) 1 9)) = [row_a]"
proof -
  have nf: "faults db_a = []" by (simp add: db_a_def)
  have l2: "lookup_row db_a 2 = None" by (simp add: lookup_row_def db_a_def row_a_def)
  have "ChangeOwnerTo db_a 1 9 =
     (None, db_a\<lparr>datasets := map (\<lambda>r. if rid r = 1 then r\<lparr>owner := 9\<rparr> else r) (datasets db_a)\<rparr>)"
    using ChangeOwnerTo_frame[of db_a 1 9] nf by blast
  then have A: "ChangeOwnerTo db_a 1 9 = (None, \<lparr>datasets = [row_a\<lparr>owner := 9\<rparr>], faults = []\<rparr>)"
    by (simp add: db_a_def row_a_def)
  have B: "ChangeOwnerTo db_a 2 9 = (None, db_a)"
    using ChangeOwnerTo_frame[of db_a 2 9] nf l2 by blast
  let ?db = "db_a\<lparr>faults := [None, Some 53300]\<rparr>"
  have C: "fst (ChangeOwnerTo ?db 1 9) = Some (StorageFailure 53300)"
    by (simp add: ChangeOwnerTo_def Begin_def Exec_def sql_update_def Rollback_def db_a_def)
  have "datasets (snd (ChangeOwnerTo ?db 1 9)) = datasets ?db"
    using ChangeOwnerTo_frame[of ?db 1 9] C by blast
  then have D: "datasets (snd (ChangeOwnerTo ?db 1 9)) = [row_a]"
    by (simp add: db_a_def)
  from nf A l2 B C D show ?thesis by (intro conjI)
qed

section \<open>Batch insert\<close>

lemma Tx_Store_committed: "Tx_Store d tx x = (res, tx') \<Longrightarrow> committed tx' = committed tx"
  by (cases "pending tx" rule: next_fault_cases)
     (auto simp: Tx_Store_def Exec_def split: sum.splits prod.splits)

lemma store_each_committed:
  "store_each d tx xs = (res, tx') \<Longrightarrow> committed tx' = committed tx"
proof (induction xs arbitrary: tx)
  case Nil
  then show ?case by simp
next
  case (Cons x xs)
  obtain r1 tx1 where S: "Tx_Store d tx x = (r1, tx1)" by (cases "Tx_Store d tx x")
  note c = Tx_Store_committed[OF S]
  show ?case
  proof (cases r1)
    case None
    with Cons.prems S have "store_each d tx1 xs = (res, tx')" by simp
    from Cons.IH[OF this] c show ?thesis by simp
  next
    case (Some e)
    with Cons.prems S c show ?thesis by simp
  qed
qed

lemma store_each_first_failure:
  "store_each d tx xs = (None, tx') \<Longrightarrow> Tx_Store d tx' y = (Some e, tx'') \<Longrightarrow>
   store_each d tx (xs @ y # ys) = (Some e, tx'')"
proof (induction xs arbitrary: tx)
  case Nil
  then show ?case by simp
next
  case (Cons x xs)
  obtain r1 tx1 where S: "Tx_Store d tx x = (r1, tx1)" by (cases "Tx_Store d tx x")
  with Cons.prems(1) have r1: "r1 = None" and "store_each d tx1 xs = (None, tx')"
    by (cases r1; simp)+
  from Cons.IH[OF this(2) Cons.prems(2)] S r1 show ?case by simp
qed

lemma BatchStore_error:
  assumes "BatchStore d db dss = (Some e, db')"
  shows "datasets db' = datasets db"
proof (cases "Begin db")
  case (Inl a)
  then obtain e0 db0 where "Begin db = Inl (e0, db0)" by (cases a) auto
  with assms Begin_Inl[OF this] show ?thesis by (auto simp: BatchStore_def)
next
  case (Inr tx)
  note B = Begin_Inr[OF Inr]
  obtain r tx' where S: "store_each d tx dss = (r, tx')" by (cases "store_each d tx dss")
  note c = store_each_committed[OF S]
  show ?thesis
  proof (cases r)
    case None
    with assms Inr S have "Commit tx' = (Some e, db')" by (simp add: BatchStore_def)
    from Commit_Some[OF this] c B show ?thesis by simp
  next
    case (Some e1)
    with assms Inr S c B show ?thesis by (auto simp: BatchStore_def datasets_Rollback)
  qed
qed

text \<open>
  C5. Whenever \<open>BatchStore\<close> returns an error, the stored relation is the one before the
  call. In particular, when the transaction has begun, the first \<open>K - 1\<close> inserts have
  succeeded and the \<open>K\<close>-th fails with \<open>e\<close> (for any cause: a violated constraint or a fault
  of the engine), \<open>BatchStore\<close> returns exactly \<open>e\<close> after rolling back, and none of the
  datasets is stored.
\<close>

theorem BatchStore_all_or_nothing:
  "(\<forall>e db'. BatchStore d db dss = (Some e, db') \<longrightarrow> datasets db' = datasets db) \<and>
   (\<forall>tx tx' tx'' e K.
      Begin db = Inr tx \<and> 1 \<le> K \<and> K \<le> length dss \<and>
      store_each d tx (take (K - 1) dss) = (None, tx') \<and>
      Tx_Store d tx' (dss ! (K - 1)) = (Some e, tx'') \<longrightarrow>
        BatchStore d db dss = (Some e, Rollback tx'') \<and>
        datasets (Rollback tx'') = datasets db)"
proof (intro conjI allI impI)
  show "datasets db' = datasets db" if "BatchStore d db dss = (Some e, db')" for e db'
    using that by (rule BatchStore_error)
next
  fix tx tx' tx'' e K
  assume h: "Begin db = Inr tx \<and> 1 \<le> K \<and> K \<le> length dss \<and>
      store_each d tx (take (K - 1) dss) = (None, tx') \<and>
      Tx_Store d tx' (dss ! (K - 1)) = (Some e, tx'')"
  then have K: "K - 1 < length dss" by arith
  have "dss = take (K - 1) dss @ dss ! (K - 1) # drop (Suc (K - 1)) dss"
    using K by (simp add: id_take_nth_drop[symmetric])
  then have "store_each d tx dss =
      store_each d tx (take (K - 1) dss @ dss ! (K - 1) # drop (Suc (K - 1)) dss)"
    by simp
  also have "\<dots> = (Some e, tx'')"
    using h by (intro store_each_first_failure[where tx' = tx']) simp_all
  finally have S: "store_each d tx dss = (Some e, tx'')" .
  with h show B: "BatchStore d db dss = (Some e, Rollback tx'')"
    by (simp add: BatchStore_def)
  from BatchStore_error[OF B] show "datasets (Rollback tx'') = datasets db" .
qed

theorem BatchStore_all_or_nothing_witness:
  "Begin db_a = Inr \<lparr>committed = [row_a], work = [row_a], pending = []\<rparr> \<and>
   (1::nat) \<le> 2 \<and> 2 \<le> length [dataset_of 2, dataset_of 1, dataset_of 3] \<and>
   store_each row_default \<lparr>committed = [row_a], work = [row_a], pending = []\<rparr>
       (take (2 - 1) [dataset_of 2, dataset_of 1, dataset_of 3])
     = (None, \<lparr>committed = [row_a],
               work = [row_a, row_default\<lparr>rid := 2, creator := 7, owner := 7, family := Some 1,
                         schema := Some ''metax'', blob := Some (JObj [])\<rparr>],
               pending = []\<rparr>) \<and>
   fst (Tx_Store row_default \<lparr>committed = [row_a],
               work = [row_a, row_default\<lparr>rid := 2, creator := 7, owner := 7, family := Some 1,
                         schema := Some ''metax'', blob := Some (JObj [])\<rparr>],
               pending = []\<rparr> ([dataset_of 2, dataset_of 1, dataset_of 3] ! (2 - 1)))
     = Some (EngineErr unique_violation) \<and>
   fst (BatchStore row_default db_a [dataset_of 2, dataset_of 1, dataset_of 3])
     = Some (EngineErr unique_violation) \<and>
   datasets (snd (BatchStore row_default db_a [dataset_of 2, dataset_of 1, dataset_of 3]))
     = datasets db_a"
proof -
  let ?tx = "\<lparr>committed = [row_a], work = [row_a], pending = []\<rparr>"
  let ?r2 = "row_default\<lparr>rid := 2, creator := 7, owner := 7, family := Some 1,
                         schema := Some ''metax'', blob := Some (JObj [])\<rparr>"
  let ?tx' = "\<lparr>committed = [row_a], work = [row_a, ?r2], pending = []\<rparr>"
  let ?dss = "[dataset_of 2, dataset_of 1, dataset_of 3]"
  have B: "Begin db_a = Inr ?tx" by (simp add: Begin_def db_a_def)
  have K: "(1::nat) \<le> 2" "2 \<le> length ?dss" by simp_all
  have S: "store_each row_default ?tx (take (2 - 1) ?dss) = (None, ?tx')"
    by (simp add: Tx_Store_def Exec_def sql_insert_def dataset_of_def row_a_def)
  obtain e tx'' where F: "Tx_Store row_default ?tx' (?dss ! (2 - 1)) = (e, tx'')"
    by (cases "Tx_Store row_default ?tx' (?dss ! (2 - 1))")
  have "fst (Tx_Store row_default ?tx' (?dss ! (2 - 1))) = Some (EngineErr unique_violation)"
    by (simp add: Tx_Store_def Exec_def sql_insert_def dataset_of_def row_a_def)
  with F have e: "e = Some (EngineErr unique_violation)" by simp
  have "BatchStore row_default db_a ?dss = (Some (EngineErr unique_violation), Rollback tx'') \<and>
        datasets (Rollback tx'') = datasets db_a"
    using BatchStore_all_or_nothing[of row_default db_a ?dss] B K S F[unfolded e] by blast
  then have R: "fst (BatchStore row_default db_a ?dss) = Some (EngineErr unique_violation)"
    and D: "datasets (snd (BatchStore row_default db_a ?dss)) = datasets db_a"
    by simp_all
  from B K S \<open>fst (Tx_Store row_default ?tx' (?dss ! (2 - 1))) = Some (EngineErr unique_violation)\<close> R D
  show ?thesis by (intro conjI)
qed

section \<open>Policy dispatcher: family-driven update\<close>

lemma QueryRow_cases:
  assumes "QueryRow rows fs i = (x, fs')"
  obtains (fault) c where "x = Inl (EngineErr c)"
  | (norows) "x = Inl ErrNoRows" "find (\<lambda>r. rid r = i) rows = None"
  | (row) r where "x = Inr r" "find (\<lambda>r. rid r = i) rows = Some r"
  using assms
  by (cases fs rule: next_fault_cases) (auto simp: QueryRow_def split: option.splits)

lemma Tx_CheckOwner_frame:
  "Tx_CheckOwner tx i own = (res, tx') \<Longrightarrow> committed tx' = committed tx \<and> work tx' = work tx"
  by (cases "QueryRow (work tx) (pending tx) i")
     (auto simp: Tx_CheckOwner_def Let_def split: sum.splits if_splits)

lemma getFamily_frame:
  "getFamily tx i = (res, tx') \<Longrightarrow> committed tx' = committed tx \<and> work tx' = work tx"
  by (cases "QueryRow (work tx) (pending tx) i")
     (auto simp: getFamily_def split: sum.splits option.splits)

lemma update_committed: "update tx i b now = (res, tx') \<Longrightarrow> committed tx' = committed tx"
  by (cases "pending tx" rule: next_fault_cases)
     (auto simp: update_def Exec_def sql_update_def split: if_splits)

lemma patch_committed: "patch tx i b now = (res, tx') \<Longrightarrow> committed tx' = committed tx"
  by (cases "pending tx" rule: next_fault_cases)
     (auto simp: patch_def Exec_def sql_update_def split: if_splits)

lemma SmartUpdateWithOwner_error:
  assumes S: "SmartUpdateWithOwner L db i b own now = (Some e, db')"
  shows "datasets db' = datasets db"
proof (cases "Begin db")
  case (Inl a)
  then obtain e0 db0 where "Begin db = Inl (e0, db0)" by (cases a) auto
  with S Begin_Inl[OF this] show ?thesis by (auto simp: SmartUpdateWithOwner_def)
next
  case (Inr tx)
  note B = Begin_Inr[OF Inr]
  obtain r1 tx1 where C: "Tx_CheckOwner tx i own = (r1, tx1)"
    by (cases "Tx_CheckOwner tx i own")
  note c1 = Tx_CheckOwner_frame[OF C]
  show ?thesis
  proof (cases r1)
    case (Some e1)
    with S Inr C c1 B show ?thesis
      by (auto simp: SmartUpdateWithOwner_def datasets_Rollback)
  next
    case None
    obtain r2 tx2 where G: "getFamily tx1 i = (r2, tx2)" by (cases "getFamily tx1 i")
    note c2 = getFamily_frame[OF G]
    show ?thesis
    proof (cases r2)
      case (Inl e2)
      with S Inr C None G c1 c2 B show ?thesis
        by (auto simp: SmartUpdateWithOwner_def datasets_Rollback)
    next
      case famId: (Inr famId)
      show ?thesis
      proof (cases "L famId")
        case (Inl e3)
        with S Inr C None G famId c1 c2 B show ?thesis
          by (auto simp: SmartUpdateWithOwner_def datasets_Rollback)
      next
        case fam: (Inr fam)
        obtain r3 tx3 where M:
          "(if IsPartial fam then patch tx2 i b now else update tx2 i b now) = (r3, tx3)"
          by (cases "if IsPartial fam then patch tx2 i b now else update tx2 i b now")
        then have c3: "committed tx3 = committed tx2"
          by (auto split: if_splits dest: patch_committed update_committed)
        show ?thesis
        proof (cases r3)
          case (Some e4)
          with S Inr C None G famId fam M c1 c2 c3 B show ?thesis
            by (auto simp: SmartUpdateWithOwner_def datasets_Rollback)
        next
          case r3: None
          with S Inr C None G famId fam M have "Commit tx3 = (Some e, db')"
            by (simp add: SmartUpdateWithOwner_def)
          from Commit_Some[OF this] c1 c2 c3 B show ?thesis by simp
        qed
      qed
    qed
  qed
qed

lemma Update_then_Get_aux:
  assumes wf: "wf_table (datasets db)" and nf: "faults db = []"
    and r: "lookup_row db i = Some r" and U: "Update db i b now = (res, db')"
  shows "res = None \<and>
         lookup_row db' i = Some (r\<lparr>modified := now, seq := seq r + 1, blob := Some b\<rparr>)"
  using Update_present[OF wf nf r, of b now] U r
  by (auto simp: lookup_row_def find_map_update_same)

lemma Patch_then_Get_aux:
  assumes wf: "wf_table (datasets db)" and nf: "faults db = []"
    and r: "lookup_row db i = Some r" and U: "Patch db i p now = (res, db')"
  shows "res = None \<and>
         lookup_row db' i = Some (r\<lparr>modified := now, seq := seq r + 1,
           blob := map_option (\<lambda>old. jsonb_concat old p) (blob r)\<rparr>)"
  using Patch_present[OF wf nf r, of p now] U r
  by (auto simp: lookup_row_def find_map_update_same)

lemma getFamily_ok:
  "pending tx = [] \<Longrightarrow> getFamily tx i =
     (case find (\<lambda>r. rid r = i) (work tx) of
        None \<Rightarrow> (Inl ErrNotFound, tx)
      | Some r \<Rightarrow> (case family r of
                    None \<Rightarrow> (Inl (StorageFailure scan_null), tx)
                  | Some fam \<Rightarrow> (Inr fam, tx)))"
  by (simp add: getFamily_def QueryRow_ok split: option.splits)

lemma SmartUpdateWithOwner_guard:
  assumes nf: "faults db = []"
  shows "lookup_row db i = None \<Longrightarrow>
           SmartUpdateWithOwner L db i b own now = (Some ErrNotFound, db)"
    and "lookup_row db i = Some r \<Longrightarrow> owner r \<noteq> own \<Longrightarrow>
           SmartUpdateWithOwner L db i b own now = (Some ErrNotOwner, db)"
    and "lookup_row db i = Some r \<Longrightarrow> owner r = own \<Longrightarrow> family r = None \<Longrightarrow>
           SmartUpdateWithOwner L db i b own now = (Some (StorageFailure scan_null), db)"
    and "lookup_row db i = Some r \<Longrightarrow> owner r = own \<Longrightarrow> family r = Some famId \<Longrightarrow>
           L famId = Inl e \<Longrightarrow>
           SmartUpdateWithOwner L db i b own now = (Some e, db)"
  using nf
  by (simp_all add: SmartUpdateWithOwner_def Begin_ok Tx_CheckOwner_ok getFamily_ok
        lookup_row_def Rollback_def)

lemma SmartUpdateWithOwner_ok:
  assumes nf: "faults db = []"
    and r: "lookup_row db i = Some r" and o: "owner r = own"
    and f: "family r = Some famId" and L: "L famId = Inr fam"
  shows "SmartUpdateWithOwner L db i b own now =
           (if IsPartial fam then Patch db i b now else Update db i b now)"
  using assms
  by (simp add: SmartUpdateWithOwner_def Begin_ok Tx_CheckOwner_ok getFamily_ok
        lookup_row_def Patch_def Update_def)

text \<open>
  C1. \<open>SmartUpdateWithOwner\<close> runs, in one transaction, the ownership guard, the read
  of the family, the lookup of the family's policy and then \<open>patch\<close> when the family is
  partial and \<open>update\<close> when it is not. Whatever the engine does, an error return leaves
  the stored relation as it was, and the error is the one of the step that failed: the
  guard's, the family read's and the lookup's as they are, the mutation's as \<open>handleError\<close>
  surfaces it. On a healthy engine and unique ids: a missing record gives \<open>ErrNotFound\<close>,
  another owner \<open>ErrNotOwner\<close>, a failed lookup its error, each with nothing stored; and
  otherwise the operation does exactly what \<open>Patch\<close> does for a partial family (merge) and
  what \<open>Update\<close> does for any other (replacement), \<open>seq\<close> one higher in both.
\<close>

theorem SmartUpdateWithOwner_dispatch:
  "(\<forall>e db'. SmartUpdateWithOwner L db i b own now = (Some e, db') \<longrightarrow>
      datasets db' = datasets db) \<and>
   (\<forall>tx. Begin db = Inr tx \<longrightarrow>
      (\<forall>e tx1. Tx_CheckOwner tx i own = (Some e, tx1) \<longrightarrow>
         fst (SmartUpdateWithOwner L db i b own now) = Some e) \<and>
      (\<forall>tx1. Tx_CheckOwner tx i own = (None, tx1) \<longrightarrow>
         (\<forall>e tx2. getFamily tx1 i = (Inl e, tx2) \<longrightarrow>
            fst (SmartUpdateWithOwner L db i b own now) = Some e) \<and>
         (\<forall>famId tx2. getFamily tx1 i = (Inr famId, tx2) \<longrightarrow>
            (\<forall>e. L famId = Inl e \<longrightarrow>
               fst (SmartUpdateWithOwner L db i b own now) = Some e) \<and>
            (\<forall>fam. L famId = Inr fam \<longrightarrow>
               (\<forall>e tx3. (if IsPartial fam then patch tx2 i b now else update tx2 i b now)
                          = (Some e, tx3) \<longrightarrow>
                  fst (SmartUpdateWithOwner L db i b own now) = Some (handleError e)) \<and>
               (\<forall>tx3. (if IsPartial fam then patch tx2 i b now else update tx2 i b now)
                        = (None, tx3) \<longrightarrow>
                  SmartUpdateWithOwner L db i b own now = Commit tx3))))) \<and>
   (wf_table (datasets db) \<and> faults db = [] \<longrightarrow>
      (lookup_row db i = None \<longrightarrow>
         SmartUpdateWithOwner L db i b own now = (Some ErrNotFound, db)) \<and>
      (\<forall>r. lookup_row db i = Some r \<longrightarrow>
         (owner r \<noteq> own \<longrightarrow>
            SmartUpdateWithOwner L db i b own now = (Some ErrNotOwner, db)) \<and>
         (owner r = own \<longrightarrow>
            (\<forall>famId. family r = Some famId \<longrightarrow>
               (\<forall>e. L famId = Inl e \<longrightarrow>
                  SmartUpdateWithOwner L db i b own now = (Some e, db)) \<and>
               (\<forall>fam. L famId = Inr fam \<longrightarrow>
                  (IsPartial fam \<longrightarrow>
                     SmartUpdateWithOwner L db i b own now = Patch db i b now \<and>
                     fst (SmartUpdateWithOwner L db i b own now) = None \<and>
                     lookup_row (snd (SmartUpdateWithOwner L db i b own now)) i =
                       Some (r\<lparr>modified := now, seq := seq r + 1,
                               blob := map_option (\<lambda>old. jsonb_concat old b) (blob r)\<rparr>)) \<and>
                  (\<not> IsPartial fam \<longrightarrow>
                     SmartUpdateWithOwner L db i b own now = Update db i b now \<and>
                     fst (SmartUpdateWithOwner L db i b own now) = None \<and>
                     lookup_row (snd (SmartUpdateWithOwner L db i b own now)) i =
                       Some (r\<lparr>modified := now, seq := seq r + 1, blob := Some b\<rparr>)))))))"
proof (intro conjI allI impI; (elim conjE)?)
  show "datasets db' = datasets db"
    if "SmartUpdateWithOwner L db i b own now = (Some e, db')" for e db'
    using that by (rule SmartUpdateWithOwner_error)
next
  fix tx e tx1
  assume "Begin db = Inr tx" "Tx_CheckOwner tx i own = (Some e, tx1)"
  then show "fst (SmartUpdateWithOwner L db i b own now) = Some e"
    by (simp add: SmartUpdateWithOwner_def)
next
  fix tx tx1 e tx2
  assume "Begin db = Inr tx" "Tx_CheckOwner tx i own = (None, tx1)"
    "getFamily tx1 i = (Inl e, tx2)"
  then show "fst (SmartUpdateWithOwner L db i b own now) = Some e"
    by (simp add: SmartUpdateWithOwner_def)
next
  fix tx tx1 famId tx2 e
  assume "Begin db = Inr tx" "Tx_CheckOwner tx i own = (None, tx1)"
    "getFamily tx1 i = (Inr famId, tx2)" "L famId = Inl e"
  then show "fst (SmartUpdateWithOwner L db i b own now) = Some e"
    by (simp add: SmartUpdateWithOwner_def)
next
  fix tx tx1 famId tx2 fam e tx3
  assume "Begin db = Inr tx" "Tx_CheckOwner tx i own = (None, tx1)"
    "getFamily tx1 i = (Inr famId, tx2)" "L famId = Inr fam"
    "(if IsPartial fam then patch tx2 i b now else update tx2 i b now) = (Some e, tx3)"
  then show "fst (SmartUpdateWithOwner L db i b own now) = Some (handleError e)"
    by (simp add: SmartUpdateWithOwner_def)
next
  fix tx tx1 famId tx2 fam tx3
  assume "Begin db = Inr tx" "Tx_CheckOwner tx i own = (None, tx1)"
    "getFamily tx1 i = (Inr famId, tx2)" "L famId = Inr fam"
    "(if IsPartial fam then patch tx2 i b now else update tx2 i b now) = (None, tx3)"
  then show "SmartUpdateWithOwner L db i b own now = Commit tx3"
    by (simp add: SmartUpdateWithOwner_def)
next
  assume "faults db = []" "lookup_row db i = None"
  then show "SmartUpdateWithOwner L db i b own now = (Some ErrNotFound, db)"
    by (rule SmartUpdateWithOwner_guard(1))
next
  fix r assume "faults db = []" "lookup_row db i = Some r" "owner r \<noteq> own"
  then show "SmartUpdateWithOwner L db i b own now = (Some ErrNotOwner, db)"
    by (rule SmartUpdateWithOwner_guard(2))
next
  fix r famId e
  assume "faults db = []" "lookup_row db i = Some r" "owner r = own"
    "family r = Some famId" "L famId = Inl e"
  then show "SmartUpdateWithOwner L db i b own now = (Some e, db)"
    by (rule SmartUpdateWithOwner_guard(4))
next
  fix r famId fam
  assume wf: "wf_table (datasets db)" and nf: "faults db = []"
    and r: "lookup_row db i = Some r" and o: "owner r = own"
    and f: "family r = Some famId" and L: "L famId = Inr fam" and p: "IsPartial fam"
  show P: "SmartUpdateWithOwner L db i b own now = Patch db i b now"
    using SmartUpdateWithOwner_ok[where L = L, OF nf r o f L, of b now] p by simp
  obtain res db' where U: "Patch db i b now = (res, db')" by (cases "Patch db i b now")
  from Patch_then_Get_aux[OF wf nf r U] U
  show "fst (SmartUpdateWithOwner L db i b own now) = None"
    and "lookup_row (snd (SmartUpdateWithOwner L db i b own now)) i =
           Some (r\<lparr>modified := now, seq := seq r + 1,
                   blob := map_option (\<lambda>old. jsonb_concat old b) (blob r)\<rparr>)"
    by (simp_all add: P)
next
  fix r famId fam
  assume wf: "wf_table (datasets db)" and nf: "faults db = []"
    and r: "lookup_row db i = Some r" and o: "owner r = own"
    and f: "family r = Some famId" and L: "L famId = Inr fam" and p: "\<not> IsPartial fam"
  show P: "SmartUpdateWithOwner L db i b own now = Update db i b now"
    using SmartUpdateWithOwner_ok[where L = L, OF nf r o f L, of b now] p by simp
  obtain res db' where U: "Update db i b now = (res, db')" by (cases "Update db i b now")
  from Update_then_Get_aux[OF wf nf r U] U
  show "fst (SmartUpdateWithOwner L db i b own now) = None"
    and "lookup_row (snd (SmartUpdateWithOwner L db i b own now)) i =
           Some (r\<lparr>modified := now, seq := seq r + 1, blob := Some b\<rparr>)"
    by (simp_all add: P)
qed

theorem SmartUpdateWithOwner_dispatch_witness:
  "wf_table (datasets db_ab) \<and> faults db_ab = [] \<and>
   lookup_row db_ab 1 = Some row_a \<and> owner row_a = 7 \<and> family row_a = Some 2 \<and>
   two_families 2 = Inr \<lparr>IsPartial = True, Key = ''dataset''\<rparr> \<and>
   SmartUpdateWithOwner two_families db_ab 1 (JObj [(''title'', JStr ''new'')]) 7 20
     = Patch db_ab 1 (JObj [(''title'', JStr ''new'')]) 20 \<and>
   lookup_row (snd (SmartUpdateWithOwner two_families db_ab 1 (JObj [(''title'', JStr ''new'')]) 7 20)) 1
     = Some (row_a\<lparr>modified := 20, seq := 1,
          blob := Some (JObj [(''title'', JStr ''new''), (''meta'', JObj [(''lang'', JStr ''fi'')])])\<rparr>) \<and>
   lookup_row db_ab 3 = Some row_b \<and> owner row_b = 7 \<and> family row_b = Some 1 \<and>
   two_families 1 = Inr \<lparr>IsPartial = False, Key = []\<rparr> \<and>
   SmartUpdateWithOwner two_families db_ab 3 (JObj [(''title'', JStr ''new'')]) 7 20
     = Update db_ab 3 (JObj [(''title'', JStr ''new'')]) 20 \<and>
   lookup_row (snd (SmartUpdateWithOwner two_families db_ab 3 (JObj [(''title'', JStr ''new'')]) 7 20)) 3
     = Some (row_b\<lparr>modified := 20, seq := 5, blob := Some (JObj [(''title'', JStr ''new'')])\<rparr>) \<and>
   owner row_a \<noteq> 8 \<and>
   SmartUpdateWithOwner two_families db_ab 1 (JObj [(''title'', JStr ''new'')]) 8 20
     = (Some ErrNotOwner, db_ab) \<and>
   lookup_row db_ab 2 = None \<and>
   SmartUpdateWithOwner two_families db_ab 2 (JObj [(''title'', JStr ''new'')]) 7 20
     = (Some ErrNotFound, db_ab) \<and>
   fst (SmartUpdateWithOwner two_families (db_ab\<lparr>faults := [None, None, None, Some 5]\<rparr>) 1
          (JObj [(''title'', JStr ''new'')]) 7 20) = Some (StorageFailure 5) \<and>
   datasets (snd (SmartUpdateWithOwner two_families (db_ab\<lparr>faults := [None, None, None, Some 5]\<rparr>) 1
          (JObj [(''title'', JStr ''new'')]) 7 20)) = [row_a, row_b]"
proof -
  let ?b = "JObj [(''title'', JStr ''new'')]"
  let ?P = "\<lparr>IsPartial = True, Key = ''dataset''\<rparr>"
  let ?F = "\<lparr>IsPartial = False, Key = []\<rparr>"
  have wf: "wf_table (datasets db_ab)" by (simp add: wf_table_def db_ab_def row_a_def row_b_def)
  have nf: "faults db_ab = []" by (simp add: db_ab_def)
  have l1: "lookup_row db_ab 1 = Some row_a"
    by (simp add: lookup_row_def db_ab_def row_a_def)
  have l3: "lookup_row db_ab 3 = Some row_b"
    by (simp add: lookup_row_def db_ab_def row_a_def row_b_def)
  have l2: "lookup_row db_ab 2 = None"
    by (simp add: lookup_row_def db_ab_def row_a_def row_b_def)
  have oa: "owner row_a = 7" and fa: "family row_a = Some 2" and oa8: "owner row_a \<noteq> 8"
    by (simp_all add: row_a_def)
  have ob: "owner row_b = 7" and fb: "family row_b = Some 1"
    by (simp_all add: row_b_def)
  have L2: "two_families 2 = Inr ?P" and L1: "two_families 1 = Inr ?F"
    by (simp_all add: two_families_def)
  have p: "IsPartial ?P" and np: "\<not> IsPartial ?F" by simp_all
  note T1 = SmartUpdateWithOwner_dispatch[of two_families db_ab 1 ?b 7 20]
  have A: "SmartUpdateWithOwner two_families db_ab 1 ?b 7 20 = Patch db_ab 1 ?b 20 \<and>
      lookup_row (snd (SmartUpdateWithOwner two_families db_ab 1 ?b 7 20)) 1 =
        Some (row_a\<lparr>modified := 20, seq := seq row_a + 1,
                blob := map_option (\<lambda>old. jsonb_concat old ?b) (blob row_a)\<rparr>)"
    using T1 wf nf l1 oa fa L2 p by blast
  have A1: "SmartUpdateWithOwner two_families db_ab 1 ?b 7 20 = Patch db_ab 1 ?b 20"
    using A by blast
  have A2: "lookup_row (snd (SmartUpdateWithOwner two_families db_ab 1 ?b 7 20)) 1
     = Some (row_a\<lparr>modified := 20, seq := 1,
          blob := Some (JObj [(''title'', JStr ''new''), (''meta'', JObj [(''lang'', JStr ''fi'')])])\<rparr>)"
  proof -
    have "row_a\<lparr>modified := 20, seq := seq row_a + 1,
                blob := map_option (\<lambda>old. jsonb_concat old ?b) (blob row_a)\<rparr>
      = row_a\<lparr>modified := 20, seq := 1,
          blob := Some (JObj [(''title'', JStr ''new''), (''meta'', JObj [(''lang'', JStr ''fi'')])])\<rparr>"
      by (simp add: row_a_def)
    then show ?thesis by (rule subst) (rule conjunct2[OF A])
  qed
  note T3 = SmartUpdateWithOwner_dispatch[of two_families db_ab 3 ?b 7 20]
  have B: "SmartUpdateWithOwner two_families db_ab 3 ?b 7 20 = Update db_ab 3 ?b 20 \<and>
      lookup_row (snd (SmartUpdateWithOwner two_families db_ab 3 ?b 7 20)) 3 =
        Some (row_b\<lparr>modified := 20, seq := seq row_b + 1, blob := Some ?b\<rparr>)"
    using T3 wf nf l3 ob fb L1 np by blast
  have B1: "SmartUpdateWithOwner two_families db_ab 3 ?b 7 20 = Update db_ab 3 ?b 20"
    using B by blast
  have B2: "lookup_row (snd (SmartUpdateWithOwner two_families db_ab 3 ?b 7 20)) 3
     = Some (row_b\<lparr>modified := 20, seq := 5, blob := Some ?b\<rparr>)"
  proof -
    have "row_b\<lparr>modified := 20, seq := seq row_b + 1, blob := Some ?b\<rparr>
      = row_b\<lparr>modified := 20, seq := 5, blob := Some ?b\<rparr>"
      by (simp add: row_b_def)
    then show ?thesis by (rule subst) (rule conjunct2[OF B])
  qed
  have C: "SmartUpdateWithOwner two_families db_ab 1 ?b 8 20 = (Some ErrNotOwner, db_ab)"
    using SmartUpdateWithOwner_dispatch[of two_families db_ab 1 ?b 8 20] wf nf l1 oa8 by blast
  have D: "SmartUpdateWithOwner two_families db_ab 2 ?b 7 20 = (Some ErrNotFound, db_ab)"
    using SmartUpdateWithOwner_dispatch[of two_families db_ab 2 ?b 7 20] wf nf l2 by blast
  let ?db = "db_ab\<lparr>faults := [None, None, None, Some 5]\<rparr>"
  have E1: "fst (SmartUpdateWithOwner two_families ?db 1 ?b 7 20) = Some (StorageFailure 5)"
    by (simp add: SmartUpdateWithOwner_def Begin_def Tx_CheckOwner_def QueryRow_def
          getFamily_def two_families_def patch_def Exec_def db_ab_def row_a_def)
  then have "SmartUpdateWithOwner two_families ?db 1 ?b 7 20
      = (Some (StorageFailure 5), snd (SmartUpdateWithOwner two_families ?db 1 ?b 7 20))"
    by (simp add: prod_eq_iff)
  then have "datasets (snd (SmartUpdateWithOwner two_families ?db 1 ?b 7 20)) = datasets ?db"
    using SmartUpdateWithOwner_dispatch[of two_families ?db 1 ?b 7 20] by blast
  then have E2: "datasets (snd (SmartUpdateWithOwner two_families ?db 1 ?b 7 20)) = [row_a, row_b]"
    by (simp add: db_ab_def)
  from wf nf l1 oa fa L2 A1 A2 l3 ob fb L1 B1 B2 oa8 C l2 D E1 E2
  show ?thesis by (intro conjI)
qed

section \<open>Read path: dereferences\<close>

lemma Get_ok:
  assumes nf: "faults db = []" and r: "lookup_row db i = Some r"
  shows "Get chk db i =
     (case family r of
        None \<Rightarrow> (Inl NilDereference, db)
      | Some f \<Rightarrow>
          (case schema r of
             None \<Rightarrow> (Inl NilDereference, db)
           | Some s \<Rightarrow>
               (case chk f s (blob r) of
                  Some e \<Rightarrow> (Inl e, db)
                | None \<Rightarrow>
                    (case valid r of
                       None \<Rightarrow> (Inl NilDereference, db)
                     | Some v \<Rightarrow>
                         (Inr \<lparr>Id' = rid r, Creator = creator r, Owner = owner r, Family = f,
                                Schema = s, Blob = blob r, Valid = v\<rparr>, db)))))"
  using assms
  by (simp add: Get_def QueryRow_ok lookup_row_def SetData_def SetValid_def zero_Dataset_def
        split: option.splits)

lemma get_ok:
  assumes nf: "pending tx = []" and r: "find (\<lambda>r. rid r = i) (work tx) = Some r"
  shows "get chk tx i key =
     (case family r of
        None \<Rightarrow> (Inl NilDereference, tx)
      | Some f \<Rightarrow>
          (case schema r of
             None \<Rightarrow> (Inl NilDereference, tx)
           | Some s \<Rightarrow>
               (let b = (if key = [] then blob r
                         else (case blob r of None \<Rightarrow> None
                               | Some j \<Rightarrow> jsonb_extract_path j key))
                in case chk f s b of
                     Some e \<Rightarrow> (Inl e, tx)
                   | None \<Rightarrow>
                       (Inr \<lparr>Id' = rid r, Creator = creator r, Owner = owner r, Family = f,
                              Schema = s, Blob = b, Valid = False\<rparr>, tx))))"
  using assms
  by (simp add: get_def QueryRow_ok SetData_def zero_Dataset_def Let_def
        split: option.splits)

text \<open>
  C10, as the code has it. Once a row is found, \<open>Get\<close> dereferences \<^verbatim>\<open>family\<close> and
  \<^verbatim>\<open>schema\<close> unconditionally: a row with either of them NULL ends in the nil dereference.
  \<^verbatim>\<open>valid\<close> is dereferenced only after \<open>SetData\<close> has returned without error: when
  \<open>SetData\<close> rejects the data, \<open>Get\<close> returns that error whatever \<^verbatim>\<open>valid\<close> holds; when it
  accepts, a NULL \<^verbatim>\<open>valid\<close> ends in the nil dereference and a populated one gives the
  record. So a record with the three columns populated gives the record or the error of
  \<open>SetData\<close>. The internal \<open>get\<close> reads and dereferences \<^verbatim>\<open>family\<close> and \<^verbatim>\<open>schema\<close> only:
  with both populated it gives the record (the blob whole or projected) or the error of
  \<open>SetData\<close>.
\<close>

theorem Get_dereferences:
  "(faults db = [] \<and> lookup_row db i = Some r \<longrightarrow>
      (family r = None \<or> schema r = None \<longrightarrow> fst (Get chk db i) = Inl NilDereference) \<and>
      (\<forall>f s. family r = Some f \<and> schema r = Some s \<longrightarrow>
         (\<forall>e. chk f s (blob r) = Some e \<longrightarrow> fst (Get chk db i) = Inl e) \<and>
         (chk f s (blob r) = None \<longrightarrow>
            (valid r = None \<longrightarrow> fst (Get chk db i) = Inl NilDereference) \<and>
            (\<forall>v. valid r = Some v \<longrightarrow>
               fst (Get chk db i) =
                 Inr \<lparr>Id' = i, Creator = creator r, Owner = owner r, Family = f,
                       Schema = s, Blob = blob r, Valid = v\<rparr>)))) \<and>
   (pending tx = [] \<and> find (\<lambda>x. rid x = i) (work tx) = Some r \<longrightarrow>
      (family r = None \<or> schema r = None \<longrightarrow>
         fst (get chk tx i key) = Inl NilDereference) \<and>
      (\<forall>f s b. family r = Some f \<and> schema r = Some s \<and>
          b = (if key = [] then blob r
               else (case blob r of None \<Rightarrow> None | Some j \<Rightarrow> jsonb_extract_path j key)) \<longrightarrow>
         (\<forall>e. chk f s b = Some e \<longrightarrow> fst (get chk tx i key) = Inl e) \<and>
         (chk f s b = None \<longrightarrow>
            fst (get chk tx i key) =
              Inr \<lparr>Id' = i, Creator = creator r, Owner = owner r, Family = f,
                    Schema = s, Blob = b, Valid = False\<rparr>)))"
proof (intro conjI allI impI; (elim conjE)?)
  assume nf: "faults db = []" and r: "lookup_row db i = Some r"
    and n: "family r = None \<or> schema r = None"
  from n show "fst (Get chk db i) = Inl NilDereference"
    by (auto simp: Get_ok[OF nf r] split: option.splits)
next
  fix f s e
  assume nf: "faults db = []" and r: "lookup_row db i = Some r"
    and "family r = Some f" "schema r = Some s" "chk f s (blob r) = Some e"
  then show "fst (Get chk db i) = Inl e"
    by (simp add: Get_ok[OF nf r])
next
  fix f s
  assume nf: "faults db = []" and r: "lookup_row db i = Some r"
    and "family r = Some f" "schema r = Some s" "chk f s (blob r) = None" "valid r = None"
  then show "fst (Get chk db i) = Inl NilDereference"
    by (simp add: Get_ok[OF nf r])
next
  fix f s v
  assume nf: "faults db = []" and r: "lookup_row db i = Some r"
    and h: "family r = Some f" "schema r = Some s" "chk f s (blob r) = None" "valid r = Some v"
  have "rid r = i" using r unfolding lookup_row_def by (rule find_rid)
  with h show "fst (Get chk db i) =
                 Inr \<lparr>Id' = i, Creator = creator r, Owner = owner r, Family = f,
                       Schema = s, Blob = blob r, Valid = v\<rparr>"
    by (simp add: Get_ok[OF nf r])
next
  assume nf: "pending tx = []" and r: "find (\<lambda>x. rid x = i) (work tx) = Some r"
    and n: "family r = None \<or> schema r = None"
  from n show "fst (get chk tx i key) = Inl NilDereference"
    by (auto simp: get_ok[OF nf r] split: option.splits)
next
  fix f s b e
  assume nf: "pending tx = []" and r: "find (\<lambda>x. rid x = i) (work tx) = Some r"
    and h: "family r = Some f" "schema r = Some s"
      "b = (if key = [] then blob r
            else (case blob r of None \<Rightarrow> None | Some j \<Rightarrow> jsonb_extract_path j key))"
      "chk f s b = Some e"
  then show "fst (get chk tx i key) = Inl e"
    by (simp add: get_ok[OF nf r] Let_def)
next
  fix f s b
  assume nf: "pending tx = []" and r: "find (\<lambda>x. rid x = i) (work tx) = Some r"
    and h: "family r = Some f" "schema r = Some s"
      "b = (if key = [] then blob r
            else (case blob r of None \<Rightarrow> None | Some j \<Rightarrow> jsonb_extract_path j key))"
      "chk f s b = None"
  have "rid r = i" using r by (rule find_rid)
  with h show "fst (get chk tx i key) =
              Inr \<lparr>Id' = i, Creator = creator r, Owner = owner r, Family = f,
                    Schema = s, Blob = b, Valid = False\<rparr>"
    by (simp add: get_ok[OF nf r] Let_def)
qed

theorem Get_dereferences_witness:
  "faults db_a = [] \<and> lookup_row db_a 1 = Some row_a \<and>
   family row_a = Some 2 \<and> schema row_a = Some ''metax'' \<and> valid row_a = Some True \<and>
   accept_all 2 ''metax'' (blob row_a) = None \<and>
   fst (Get accept_all db_a 1) =
     Inr \<lparr>Id' = 1, Creator = 7, Owner = 7, Family = 2, Schema = ''metax'',
           Blob = Some (JObj [(''title'', JStr ''old''), (''meta'', JObj [(''lang'', JStr ''fi'')])]),
           Valid = True\<rparr> \<and>
   faults db_nulls = [] \<and> lookup_row db_nulls 6 = Some row_null_family \<and>
   family row_null_family = None \<and>
   fst (Get accept_all db_nulls 6) = Inl NilDereference \<and>
   lookup_row db_nulls 5 = Some row_null_valid \<and> family row_null_valid = Some 9 \<and>
   schema row_null_valid = Some ''metax'' \<and> valid row_null_valid = None \<and>
   accept_all 9 ''metax'' (blob row_null_valid) = None \<and>
   fst (Get accept_all db_nulls 5) = Inl NilDereference \<and>
   known_families_only 9 ''metax'' (blob row_null_valid) = Some (ModelErr 1) \<and>
   fst (Get known_families_only db_nulls 5) = Inl (ModelErr 1) \<and>
   find (\<lambda>x. rid x = 1) (work \<lparr>committed = [row_a], work = [row_a], pending = []\<rparr>) = Some row_a \<and>
   fst (get accept_all \<lparr>committed = [row_a], work = [row_a], pending = []\<rparr> 1 ''meta'') =
     Inr \<lparr>Id' = 1, Creator = 7, Owner = 7, Family = 2, Schema = ''metax'',
           Blob = Some (JObj [(''lang'', JStr ''fi'')]), Valid = False\<rparr> \<and>
   find (\<lambda>x. rid x = 6) (work \<lparr>committed = [], work = [row_null_family], pending = []\<rparr>)
     = Some row_null_family \<and>
   fst (get accept_all \<lparr>committed = [], work = [row_null_family], pending = []\<rparr> 6 [])
     = Inl NilDereference"
proof -
  let ?tx = "\<lparr>committed = [row_a], work = [row_a], pending = []\<rparr>"
  let ?tx6 = "\<lparr>committed = [], work = [row_null_family], pending = []\<rparr>"
  have nfa: "faults db_a = []" by (simp add: db_a_def)
  have nfn: "faults db_nulls = []" by (simp add: db_nulls_def)
  have l1: "lookup_row db_a 1 = Some row_a" by (simp add: lookup_row_def db_a_def row_a_def)
  have l6: "lookup_row db_nulls 6 = Some row_null_family"
    by (simp add: lookup_row_def db_nulls_def row_null_valid_def row_null_family_def)
  have l5: "lookup_row db_nulls 5 = Some row_null_valid"
    by (simp add: lookup_row_def db_nulls_def row_null_valid_def)
  have a: "family row_a = Some 2" "schema row_a = Some ''metax''" "valid row_a = Some True"
    "accept_all 2 ''metax'' (blob row_a) = None"
    by (simp_all add: row_a_def accept_all_def)
  have n6: "family row_null_family = None" by (simp add: row_null_family_def)
  have n5: "family row_null_valid = Some 9" "schema row_null_valid = Some ''metax''"
    "valid row_null_valid = None" "accept_all 9 ''metax'' (blob row_null_valid) = None"
    "known_families_only 9 ''metax'' (blob row_null_valid) = Some (ModelErr 1)"
    by (simp_all add: row_null_valid_def accept_all_def known_families_only_def two_families_def)
  have "fst (Get accept_all db_a 1) =
      Inr \<lparr>Id' = 1, Creator = creator row_a, Owner = owner row_a, Family = 2,
            Schema = ''metax'', Blob = blob row_a, Valid = True\<rparr>"
    using Get_dereferences[where db = db_a and i = 1 and r = row_a and chk = accept_all] nfa l1 a by blast
  then have A: "fst (Get accept_all db_a 1) =
     Inr \<lparr>Id' = 1, Creator = 7, Owner = 7, Family = 2, Schema = ''metax'',
           Blob = Some (JObj [(''title'', JStr ''old''), (''meta'', JObj [(''lang'', JStr ''fi'')])]),
           Valid = True\<rparr>"
    by (simp add: row_a_def)
  have B: "fst (Get accept_all db_nulls 6) = Inl NilDereference"
    using Get_dereferences[where db = db_nulls and i = 6 and r = row_null_family and chk = accept_all] nfn l6 n6 by blast
  have C: "fst (Get accept_all db_nulls 5) = Inl NilDereference"
    using Get_dereferences[where db = db_nulls and i = 5 and r = row_null_valid and chk = accept_all] nfn l5 n5 by blast
  have D: "fst (Get known_families_only db_nulls 5) = Inl (ModelErr 1)"
    using Get_dereferences[where db = db_nulls and i = 5 and r = row_null_valid and chk = known_families_only] nfn l5 n5 by blast
  have p: "pending ?tx = []" "pending ?tx6 = []" by simp_all
  have f1: "find (\<lambda>x. rid x = 1) (work ?tx) = Some row_a" by (simp add: row_a_def)
  have f6: "find (\<lambda>x. rid x = 6) (work ?tx6) = Some row_null_family"
    by (simp add: row_null_family_def)
  have b: "Some (JObj [(''lang'', JStr ''fi'')]) =
      (if ''meta'' = [] then blob row_a
       else (case blob row_a of None \<Rightarrow> None | Some j \<Rightarrow> jsonb_extract_path j ''meta''))"
    "accept_all 2 ''metax'' (Some (JObj [(''lang'', JStr ''fi'')])) = None"
    by (simp_all add: row_a_def accept_all_def)
  have "fst (get accept_all ?tx 1 ''meta'') =
      Inr \<lparr>Id' = 1, Creator = creator row_a, Owner = owner row_a, Family = 2,
            Schema = ''metax'', Blob = Some (JObj [(''lang'', JStr ''fi'')]), Valid = False\<rparr>"
    using Get_dereferences[where r = row_a and chk = accept_all and tx = ?tx and i = 1 and key = "''meta''"] p f1 a(1,2) b by blast
  then have E: "fst (get accept_all ?tx 1 ''meta'') =
     Inr \<lparr>Id' = 1, Creator = 7, Owner = 7, Family = 2, Schema = ''metax'',
           Blob = Some (JObj [(''lang'', JStr ''fi'')]), Valid = False\<rparr>"
    by (simp add: row_a_def)
  have F: "fst (get accept_all ?tx6 6 []) = Inl NilDereference"
    using Get_dereferences[where r = row_null_family and chk = accept_all and tx = ?tx6 and i = 6 and key = "[]"] p f6 n6 by blast
  from nfa l1 a A nfn l6 n6 B l5 n5(1-4) C n5(5) D f1 E f6 F
  show ?thesis by (intro conjI)
qed

text \<open>
  C10 as stated fails in two places. Where \<open>SetData\<close> rejects the data, a matched row
  with \<^verbatim>\<open>valid\<close> NULL reaches the error return of \<open>Get\<close>, not a dereference, and a row with
  all three columns populated is not returned. And the internal \<open>get\<close> returns the record
  of a matched row with \<^verbatim>\<open>valid\<close> NULL: it never reads that column.
\<close>

theorem Get_dereferences_counterexample:
  "faults db_nulls = [] \<and>
   lookup_row db_nulls 5 = Some row_null_valid \<and> valid row_null_valid = None \<and>
   fst (Get known_families_only db_nulls 5) = Inl (ModelErr 1) \<and>
   fst (Get known_families_only db_nulls 5) \<noteq> Inl NilDereference \<and>
   lookup_row db_nulls 8 = Some row_unknown_family \<and>
   family row_unknown_family = Some 9 \<and> schema row_unknown_family = Some ''metax'' \<and>
   valid row_unknown_family = Some True \<and>
   fst (Get known_families_only db_nulls 8) = Inl (ModelErr 1) \<and>
   fst (get accept_all \<lparr>committed = [], work = [row_null_valid], pending = []\<rparr> 5 []) =
     Inr \<lparr>Id' = 5, Creator = 7, Owner = 7, Family = 9, Schema = ''metax'',
           Blob = Some (JObj []), Valid = False\<rparr>"
  by (simp add: Get_def get_def QueryRow_def SetData_def lookup_row_def db_nulls_def
        row_null_valid_def row_null_family_def row_unknown_family_def
        known_families_only_def two_families_def zero_Dataset_def accept_all_def)

section \<open>Listing by owner\<close>

lemma ListAllForUid_nonempty:
  assumes "faults db = []" and "r \<in> set (datasets db)" and "owner r = uid"
  shows "fst (ListAllForUid chk db uid) = Inl (EngineErr scan_target)"
proof -
  from assms(2,3) have "filter (\<lambda>r. owner r = uid) (datasets db) \<noteq> []"
    by (auto simp: filter_empty_conv)
  then obtain x xs where "filter (\<lambda>r. owner r = uid) (datasets db) = x # xs"
    by (cases "filter (\<lambda>r. owner r = uid) (datasets db)") auto
  with assms(1) show ?thesis
    by (simp add: ListAllForUid_def Scan_def)
qed

text \<open>
  C8 at a failing input: the relation holds one record owned by principal 7, the engine is
  healthy, and \<open>ListAllForUid\<close> returns the error of \<^verbatim>\<open>rows.Scan\<close> instead of the record; only
  for a principal that owns nothing does it return (the empty list).
\<close>

theorem ListAllForUid_failing_input:
  "faults db_a = [] \<and>
   filter (\<lambda>r. owner r = 7) (datasets db_a) = [row_a] \<and>
   ListAllForUid accept_all db_a 7 = (Inl (EngineErr scan_target), db_a) \<and>
   ListAllForUid accept_all db_a 8 = (Inr [], db_a)"
  by (simp add: ListAllForUid_def Scan_def db_a_def row_a_def)

section \<open>Clone\<close>

lemma sql_insert_select_with_from:
  "sql_insert_select [''datasets''] row_default 1 2 b [row_a]
     = Inr ([row_a, row_a\<lparr>rid := 2, blob := Some b, seq := 0\<rparr>], 1)"
  by (simp add: sql_insert_select_def row_a_def row_default_def)

lemma Clone_ok:
  "faults db = [] \<Longrightarrow> Clone dflt db i newid b = (Some (StorageFailure undefined_column), db)"
  by (simp add: Clone_def Begin_ok Exec_ok sql_insert_select_def Rollback_def)

text \<open>
  C6 at a failing input: the relation holds the record 1 and no record 2, the engine is
  healthy, and \<open>Clone\<close> of 1 under the new id 2 inserts nothing and returns the engine's
  rejection of the statement; for a source that does not exist the error is the same one,
  not \<open>ErrNotFound\<close>.
\<close>

theorem Clone_failing_input:
  "faults db_a = [] \<and> lookup_row db_a 1 = Some row_a \<and> lookup_row db_a 2 = None \<and>
   Clone row_default db_a 1 2 (JObj [(''title'', JStr ''copy'')])
     = (Some (StorageFailure undefined_column), db_a) \<and>
   lookup_row db_a 4 = None \<and>
   Clone row_default db_a 4 2 (JObj [(''title'', JStr ''copy'')])
     = (Some (StorageFailure undefined_column), db_a)"
  by (simp add: Clone_def Begin_def Exec_def sql_insert_select_def Rollback_def
        lookup_row_def db_a_def row_a_def)

section \<open>The version counter\<close>

lemma Commit_effect:
  "Commit tx = (res, db') \<Longrightarrow>
     (res \<noteq> None \<and> datasets db' = committed tx) \<or> (res = None \<and> datasets db' = work tx)"
  by (cases "pending tx" rule: next_fault_cases) (auto simp: Commit_def)

lemma update_effect:
  "update tx i b now = (res, tx') \<Longrightarrow>
     committed tx' = committed tx \<and>
     (res = None \<longrightarrow> work tx' =
        map (\<lambda>r. if rid r = i then r\<lparr>modified := now, seq := seq r + 1, blob := Some b\<rparr> else r)
          (work tx))"
  by (cases "pending tx" rule: next_fault_cases)
     (auto simp: update_def Exec_def sql_update_def split: if_splits)

lemma patch_effect:
  "patch tx i b now = (res, tx') \<Longrightarrow>
     committed tx' = committed tx \<and>
     (res = None \<longrightarrow> work tx' =
        map (\<lambda>r. if rid r = i then r\<lparr>modified := now, seq := seq r + 1,
                     blob := map_option (\<lambda>old. jsonb_concat old b) (blob r)\<rparr> else r)
          (work tx))"
  by (cases "pending tx" rule: next_fault_cases)
     (auto simp: patch_def Exec_def sql_update_def split: if_splits)

lemma markPublished_effect:
  "markPublished tx i p now = (res, tx') \<Longrightarrow>
     committed tx' = committed tx \<and>
     (res = None \<longrightarrow> work tx' =
        map (\<lambda>r. if rid r = i then r\<lparr>published := p, synced := now\<rparr> else r) (work tx))"
  by (cases "pending tx" rule: next_fault_cases)
     (auto simp: markPublished_def Exec_def sql_update_def split: if_splits)

lemma updateByService_effect:
  "updateByService tx i b now = (res, tx') \<Longrightarrow>
     committed tx' = committed tx \<and>
     (res = None \<longrightarrow> work tx' =
        map (\<lambda>r. if rid r = i then r\<lparr>synced := now, seq := seq r + 1, blob := Some b\<rparr> else r)
          (work tx))"
  by (cases "pending tx" rule: next_fault_cases)
     (auto simp: updateByService_def Exec_def sql_update_def split: if_splits)

lemma Update_effect:
  assumes "Update db i b now = (res, db')"
  shows "(res \<noteq> None \<and> datasets db' = datasets db) \<or>
         (res = None \<and> datasets db' =
            map (\<lambda>r. if rid r = i then r\<lparr>modified := now, seq := seq r + 1, blob := Some b\<rparr> else r)
              (datasets db))"
  using assms
  by (auto simp: Update_def datasets_Rollback split: sum.splits prod.splits option.splits
      dest!: Begin_Inl Begin_Inr update_effect Commit_effect)

lemma UpdateWithOwner_effect:
  assumes "UpdateWithOwner db i b own now = (res, db')"
  shows "(res \<noteq> None \<and> datasets db' = datasets db) \<or>
         (res = None \<and> datasets db' =
            map (\<lambda>r. if rid r = i then r\<lparr>modified := now, seq := seq r + 1, blob := Some b\<rparr> else r)
              (datasets db))"
  using assms
  by (auto simp: UpdateWithOwner_def datasets_Rollback split: sum.splits prod.splits option.splits
      dest!: Begin_Inl Begin_Inr Tx_CheckOwner_frame update_effect Commit_effect)

lemma Patch_effect:
  assumes "Patch db i b now = (res, db')"
  shows "(res \<noteq> None \<and> datasets db' = datasets db) \<or>
         (res = None \<and> datasets db' =
            map (\<lambda>r. if rid r = i then r\<lparr>modified := now, seq := seq r + 1,
                     blob := map_option (\<lambda>old. jsonb_concat old b) (blob r)\<rparr> else r)
              (datasets db))"
  using assms
  by (auto simp: Patch_def datasets_Rollback split: sum.splits prod.splits option.splits
      dest!: Begin_Inl Begin_Inr patch_effect Commit_effect)

lemma PatchWithOwner_effect:
  assumes "PatchWithOwner db i b own now = (res, db')"
  shows "(res \<noteq> None \<and> datasets db' = datasets db) \<or>
         (res = None \<and> datasets db' =
            map (\<lambda>r. if rid r = i then r\<lparr>modified := now, seq := seq r + 1,
                     blob := map_option (\<lambda>old. jsonb_concat old b) (blob r)\<rparr> else r)
              (datasets db))"
  using assms
  by (auto simp: PatchWithOwner_def datasets_Rollback split: sum.splits prod.splits option.splits
      dest!: Begin_Inl Begin_Inr Tx_CheckOwner_frame patch_effect Commit_effect)

lemma MarkPublished_effect:
  assumes "MarkPublished db i p now = (res, db')"
  shows "(res \<noteq> None \<and> datasets db' = datasets db) \<or>
         (res = None \<and> datasets db' =
            map (\<lambda>r. if rid r = i then r\<lparr>published := p, synced := now\<rparr> else r) (datasets db))"
  using assms
  by (auto simp: MarkPublished_def datasets_Rollback split: sum.splits prod.splits option.splits
      dest!: Begin_Inl Begin_Inr markPublished_effect Commit_effect)

lemma MarkPublishedWithOwner_effect:
  assumes "MarkPublishedWithOwner db i own p now = (res, db')"
  shows "(res \<noteq> None \<and> datasets db' = datasets db) \<or>
         (res = None \<and> datasets db' =
            map (\<lambda>r. if rid r = i then r\<lparr>published := p, synced := now\<rparr> else r) (datasets db))"
  using assms
  by (auto simp: MarkPublishedWithOwner_def datasets_Rollback
      split: sum.splits prod.splits option.splits
      dest!: Begin_Inl Begin_Inr Tx_CheckOwner_frame markPublished_effect Commit_effect)

lemma SmartUpdateWithOwner_effect:
  assumes "SmartUpdateWithOwner L db i b own now = (res, db')"
  shows "(res \<noteq> None \<and> datasets db' = datasets db) \<or>
         (res = None \<and> datasets db' =
            map (\<lambda>r. if rid r = i then r\<lparr>modified := now, seq := seq r + 1,
                     blob := map_option (\<lambda>old. jsonb_concat old b) (blob r)\<rparr> else r)
              (datasets db)) \<or>
         (res = None \<and> datasets db' =
            map (\<lambda>r. if rid r = i then r\<lparr>modified := now, seq := seq r + 1, blob := Some b\<rparr> else r)
              (datasets db))"
  using assms
  by (auto simp: SmartUpdateWithOwner_def datasets_Rollback
      split: sum.splits prod.splits option.splits if_splits
      dest!: Begin_Inl Begin_Inr Tx_CheckOwner_frame getFamily_frame patch_effect update_effect
        Commit_effect)

lemma Exec_sql_update:
  "Exec tx (sql_update i f) = (x, tx') \<Longrightarrow>
     committed tx' = committed tx \<and>
     (\<forall>n. x = Inr n \<longrightarrow> work tx' = map (\<lambda>r. if rid r = i then f r else r) (work tx))"
  by (cases "pending tx" rule: next_fault_cases) (auto simp: Exec_def sql_update_def)

lemma Exec_sql_delete:
  "Exec tx (sql_delete i) = (x, tx') \<Longrightarrow>
     committed tx' = committed tx \<and>
     (\<forall>n. x = Inr n \<longrightarrow> work tx' = filter (\<lambda>r. rid r \<noteq> i) (work tx))"
  by (cases "pending tx" rule: next_fault_cases) (auto simp: Exec_def sql_delete_def)

lemma Exec_sql_insert_select:
  "Exec tx (sql_insert_select [] dflt i newid b) = (x, tx') \<Longrightarrow>
     committed tx' = committed tx \<and> (\<exists>e. x = Inl e)"
  by (cases "pending tx" rule: next_fault_cases) (auto simp: Exec_def sql_insert_select_def)

lemma StorePublished_effect:
  assumes "StorePublished db i b now = (res, db')"
  shows "(res \<noteq> None \<and> datasets db' = datasets db) \<or>
         (res = None \<and> datasets db' =
            map (\<lambda>r. if rid r = i then r\<lparr>blob := Some b, published := True, synced := now,
                     seq := seq r + 1\<rparr> else r)
              (datasets db))"
  using assms
  by (auto simp: StorePublished_def datasets_Rollback
      split: sum.splits prod.splits option.splits if_splits
      dest!: Begin_Inl Begin_Inr Exec_sql_update Commit_effect)

lemma ChangeOwnerTo_effect:
  assumes "ChangeOwnerTo db i uid = (res, db')"
  shows "(res \<noteq> None \<and> datasets db' = datasets db) \<or>
         (res = None \<and> datasets db' =
            map (\<lambda>r. if rid r = i then r\<lparr>owner := uid\<rparr> else r) (datasets db))"
  using assms
  by (auto simp: ChangeOwnerTo_def datasets_Rollback
      split: sum.splits prod.splits option.splits
      dest!: Begin_Inl Begin_Inr Exec_sql_update Commit_effect)

lemma Clone_effect:
  assumes "Clone dflt db i newid b = (res, db')"
  shows "res \<noteq> None \<and> datasets db' = datasets db"
  using assms
  by (auto simp: Clone_def datasets_Rollback
      split: sum.splits prod.splits option.splits if_splits
      dest!: Begin_Inl Begin_Inr Exec_sql_insert_select Commit_effect)

lemma Delete_effect:
  assumes "Delete db i own = (res, db')"
  shows "(res \<noteq> None \<and> datasets db' = datasets db) \<or>
         (res = None \<and> datasets db' = filter (\<lambda>r. rid r \<noteq> i) (datasets db))"
  using assms
  by (auto simp: Delete_def datasets_Rollback
      split: sum.splits prod.splits option.splits if_splits
      dest!: Begin_Inl Begin_Inr Tx_CheckOwner_frame Exec_sql_delete Commit_effect)

lemma Tx_Store_effect:
  "Tx_Store dflt tx x = (res, tx') \<Longrightarrow>
     committed tx' = committed tx \<and>
     (\<exists>new. work tx' = work tx @ new \<and> (wf_table (work tx) \<longrightarrow> wf_table (work tx')))"
  by (cases "pending tx" rule: next_fault_cases)
     (auto simp: Tx_Store_def Exec_def sql_insert_def wf_table_def split: if_splits)

lemma store_each_effect:
  "store_each dflt tx xs = (res, tx') \<Longrightarrow>
     committed tx' = committed tx \<and>
     (\<exists>new. work tx' = work tx @ new \<and> (wf_table (work tx) \<longrightarrow> wf_table (work tx')))"
proof (induction xs arbitrary: tx)
  case Nil
  then show ?case by auto
next
  case (Cons x xs)
  obtain r1 tx1 where S: "Tx_Store dflt tx x = (r1, tx1)" by (cases "Tx_Store dflt tx x")
  from Tx_Store_effect[OF S] obtain new1 where
    c1: "committed tx1 = committed tx" and w1: "work tx1 = work tx @ new1"
    and wf1: "wf_table (work tx) \<longrightarrow> wf_table (work tx1)" by blast
  show ?case
  proof (cases r1)
    case None
    with Cons.prems S have "store_each dflt tx1 xs = (res, tx')" by simp
    from Cons.IH[OF this] obtain new2 where
      "committed tx' = committed tx1" "work tx' = work tx1 @ new2"
      "wf_table (work tx1) \<longrightarrow> wf_table (work tx')" by blast
    with c1 w1 wf1 show ?thesis by auto
  next
    case (Some e)
    with Cons.prems S have "tx' = tx1" by simp
    with c1 w1 wf1 show ?thesis by auto
  qed
qed

lemma DB_Store_effect:
  assumes "DB_Store dflt db x = (res, db')"
  shows "\<exists>new. datasets db' = datasets db @ new \<and>
           (wf_table (datasets db) \<longrightarrow> wf_table (datasets db'))"
  using assms
  by (auto simp: DB_Store_def datasets_Rollback
      split: sum.splits prod.splits option.splits
      dest!: Begin_Inl Begin_Inr Tx_Store_effect Commit_effect)

lemma BatchStore_effect:
  assumes "BatchStore dflt db xs = (res, db')"
  shows "\<exists>new. datasets db' = datasets db @ new \<and>
           (wf_table (datasets db) \<longrightarrow> wf_table (datasets db'))"
  using assms
  by (auto simp: BatchStore_def datasets_Rollback
      split: sum.splits prod.splits option.splits
      dest!: Begin_Inl Begin_Inr store_each_effect Commit_effect)

lemma find_filter_other:
  "find (\<lambda>r. rid r = j) (filter (\<lambda>r. rid r \<noteq> i) rows) =
     (if j = i then None else find (\<lambda>r. rid r = j) rows)"
  by (induction rows) auto

lemma wf_table_filter: "wf_table rows \<Longrightarrow> wf_table (filter P rows)"
  by (simp add: wf_table_def distinct_map_filter)

text \<open>One step never lowers the counter of a record and keeps the ids unique.\<close>

lemma rewrite_step:
  assumes eff: "datasets db' = datasets db \<or>
      datasets db' = map (\<lambda>r. if rid r = i then f r else r) (datasets db)"
    and f: "\<And>r. rid (f r) = rid r" "\<And>r. seq r \<le> seq (f r)"
    and wf: "wf_table (datasets db)"
  shows "wf_table (datasets db') \<and>
         (\<forall>j r r'. lookup_row db j = Some r \<and> lookup_row db' j = Some r' \<longrightarrow> seq r \<le> seq r')"
  using eff
proof
  assume "datasets db' = datasets db"
  with wf show ?thesis by (auto simp: lookup_row_def)
next
  assume e: "datasets db' = map (\<lambda>r. if rid r = i then f r else r) (datasets db)"
  have "seq r \<le> seq r'" if "lookup_row db j = Some r" "lookup_row db' j = Some r'" for j r r'
  proof (cases "j = i")
    case True
    with that e have "r' = f r"
      by (simp add: lookup_row_def find_map_update_same[of f, OF f(1)])
    with f(2) show ?thesis by simp
  next
    case False
    with that e have "r' = r"
      by (simp add: lookup_row_def find_map_update_other[of f, OF f(1)])
    then show ?thesis by simp
  qed
  with wf e wf_table_map_update[of f, OF f(1)] show ?thesis by auto
qed

lemma find_rid_append:
  "find (\<lambda>r. rid r = j) rows = Some r \<Longrightarrow> find (\<lambda>r. rid r = j) (rows @ new) = Some r"
  by (induction rows) (auto split: if_splits)

lemma append_step:
  assumes eff: "\<exists>new. datasets db' = datasets db @ new \<and>
      (wf_table (datasets db) \<longrightarrow> wf_table (datasets db'))"
    and wf: "wf_table (datasets db)"
  shows "wf_table (datasets db') \<and>
         (\<forall>j r r'. lookup_row db j = Some r \<and> lookup_row db' j = Some r' \<longrightarrow> seq r \<le> seq r')"
proof -
  from eff wf obtain new where n: "datasets db' = datasets db @ new" and w: "wf_table (datasets db')"
    by blast
  have "seq r \<le> seq r'" if "lookup_row db j = Some r" "lookup_row db' j = Some r'" for j r r'
  proof -
    from that(1) have "lookup_row db' j = Some r"
      unfolding lookup_row_def n by (rule find_rid_append)
    with that(2) show ?thesis by simp
  qed
  with w show ?thesis by blast
qed

lemma delete_step:
  assumes eff: "datasets db' = datasets db \<or>
      datasets db' = filter (\<lambda>r. rid r \<noteq> i) (datasets db)"
    and wf: "wf_table (datasets db)"
  shows "wf_table (datasets db') \<and>
         (\<forall>j r r'. lookup_row db j = Some r \<and> lookup_row db' j = Some r' \<longrightarrow> seq r \<le> seq r')"
  using eff wf
  by (auto simp: lookup_row_def find_filter_other wf_table_filter split: if_splits)

lemma apply_op_step:
  assumes A: "apply_op L dflt db (x, now) = (res, db')" and wf: "wf_table (datasets db)"
  shows "wf_table (datasets db') \<and>
         (\<forall>j r r'. lookup_row db j = Some r \<and> lookup_row db' j = Some r' \<longrightarrow> seq r \<le> seq r')"
proof (cases x)
  case (OpChangeOwnerTo i uid)
  with A ChangeOwnerTo_effect[of db i uid res db'] show ?thesis
    by (intro rewrite_step[where i = i and f = "\<lambda>r. r\<lparr>owner := uid\<rparr>"] wf) auto
next
  case (OpStore d)
  with A DB_Store_effect[of dflt db d res db'] show ?thesis
    by (intro append_step wf) auto
next
  case (OpBatchStore ds)
  with A BatchStore_effect[of dflt db ds res db'] show ?thesis
    by (intro append_step wf) auto
next
  case (OpUpdate i b)
  with A Update_effect[of db i b now res db'] show ?thesis
    by (intro rewrite_step[where i = i
          and f = "\<lambda>r. r\<lparr>modified := now, seq := seq r + 1, blob := Some b\<rparr>"] wf) auto
next
  case (OpUpdateWithOwner i b own)
  with A UpdateWithOwner_effect[of db i b own now res db'] show ?thesis
    by (intro rewrite_step[where i = i
          and f = "\<lambda>r. r\<lparr>modified := now, seq := seq r + 1, blob := Some b\<rparr>"] wf) auto
next
  case (OpPatch i b)
  with A Patch_effect[of db i b now res db'] show ?thesis
    by (intro rewrite_step[where i = i
          and f = "\<lambda>r. r\<lparr>modified := now, seq := seq r + 1,
                     blob := map_option (\<lambda>old. jsonb_concat old b) (blob r)\<rparr>"] wf) auto
next
  case (OpPatchWithOwner i b own)
  with A PatchWithOwner_effect[of db i b own now res db'] show ?thesis
    by (intro rewrite_step[where i = i
          and f = "\<lambda>r. r\<lparr>modified := now, seq := seq r + 1,
                     blob := map_option (\<lambda>old. jsonb_concat old b) (blob r)\<rparr>"] wf) auto
next
  case (OpSmartUpdateWithOwner i b own)
  with A have S: "SmartUpdateWithOwner L db i b own now = (res, db')" by simp
  from SmartUpdateWithOwner_effect[OF S]
  consider "datasets db' = datasets db"
    | "datasets db' = map (\<lambda>r. if rid r = i then r\<lparr>modified := now, seq := seq r + 1,
                     blob := map_option (\<lambda>old. jsonb_concat old b) (blob r)\<rparr> else r)
              (datasets db)"
    | "datasets db' = map (\<lambda>r. if rid r = i then r\<lparr>modified := now, seq := seq r + 1,
                     blob := Some b\<rparr> else r) (datasets db)"
    by blast
  then show ?thesis
  proof cases
    case 1
    then show ?thesis
      by (intro rewrite_step[where i = i and f = "\<lambda>r. r"] wf) auto
  next
    case 2
    then show ?thesis
      by (intro rewrite_step[where i = i
          and f = "\<lambda>r. r\<lparr>modified := now, seq := seq r + 1,
                     blob := map_option (\<lambda>old. jsonb_concat old b) (blob r)\<rparr>"] wf) auto
  next
    case 3
    then show ?thesis
      by (intro rewrite_step[where i = i
          and f = "\<lambda>r. r\<lparr>modified := now, seq := seq r + 1, blob := Some b\<rparr>"] wf) auto
  qed
next
  case (OpStorePublished i b)
  with A StorePublished_effect[of db i b now res db'] show ?thesis
    by (intro rewrite_step[where i = i
          and f = "\<lambda>r. r\<lparr>blob := Some b, published := True, synced := now,
                     seq := seq r + 1\<rparr>"] wf) auto
next
  case (OpClone i newid b)
  with A Clone_effect[of dflt db i newid b res db'] show ?thesis
    by (intro rewrite_step[where i = i and f = "\<lambda>r. r"] wf) auto
next
  case (OpMarkPublished i p)
  with A MarkPublished_effect[of db i p now res db'] show ?thesis
    by (intro rewrite_step[where i = i
          and f = "\<lambda>r. r\<lparr>published := p, synced := now\<rparr>"] wf) auto
next
  case (OpMarkPublishedWithOwner i own p)
  with A MarkPublishedWithOwner_effect[of db i own p now res db'] show ?thesis
    by (intro rewrite_step[where i = i
          and f = "\<lambda>r. r\<lparr>published := p, synced := now\<rparr>"] wf) auto
next
  case (OpDelete i own)
  with A Delete_effect[of db i own res db'] show ?thesis
    by (intro delete_step[where i = i] wf) auto
qed

lemma trace_head: "\<exists>rest. trace L dflt db ops = db # rest"
  by (cases ops) auto

lemma trace_sorted:
  assumes "wf_table (datasets db)"
    and "\<forall>s \<in> set (trace L dflt db ops). seq_of s i \<noteq> None"
  shows "sorted (map (\<lambda>s. the (seq_of s i)) (trace L dflt db ops))"
  using assms
proof (induction ops arbitrary: db)
  case Nil
  then show ?case by simp
next
  case (Cons x xs)
  let ?g = "\<lambda>s. the (seq_of s i)"
  obtain o1 now where x: "x = (o1, now)" by (cases x)
  obtain res db1 where A: "apply_op L dflt db (o1, now) = (res, db1)"
    by (cases "apply_op L dflt db (o1, now)")
  from apply_op_step[OF A Cons.prems(1)]
  have wf1: "wf_table (datasets db1)"
    and mono: "\<And>j r r'. lookup_row db j = Some r \<Longrightarrow> lookup_row db1 j = Some r' \<Longrightarrow> seq r \<le> seq r'"
    by blast+
  have tr: "trace L dflt db (x # xs) = db # trace L dflt db1 xs"
    using x A by simp
  from Cons.prems(2) tr have alive: "\<forall>s \<in> set (trace L dflt db1 xs). seq_of s i \<noteq> None"
    and a0: "seq_of db i \<noteq> None" by simp_all
  from Cons.IH[OF wf1 alive] have S: "sorted (map ?g (trace L dflt db1 xs))" .
  obtain rest where rest: "trace L dflt db1 xs = db1 # rest"
    using trace_head by blast
  from alive rest have a1: "seq_of db1 i \<noteq> None" by simp
  from a0 a1 obtain r r' where "lookup_row db i = Some r" "lookup_row db1 i = Some r'"
    by (auto simp: seq_of_def)
  with mono have le: "?g db \<le> ?g db1" by (simp add: seq_of_def)
  have "\<forall>y \<in> set (map ?g (trace L dflt db1 xs)). ?g db \<le> y"
  proof
    fix y assume "y \<in> set (map ?g (trace L dflt db1 xs))"
    with S rest have "?g db1 \<le> y" by auto
    with le show "?g db \<le> y" by simp
  qed
  with S tr show ?case by simp
qed

lemma seq_of_rewrite:
  assumes "datasets db' = map (\<lambda>r. if rid r = i then f r else r) (datasets db)"
    and "\<And>r. rid (f r) = rid r" and "\<And>r. seq (f r) = seq r + 1"
    and "seq_of db i = Some n"
  shows "seq_of db' i = Some (n + 1)"
  using assms(1,3,4)
  by (auto simp: seq_of_def lookup_row_def find_map_update_same[of f, OF assms(2)])

lemma content_write_step:
  assumes A: "apply_op L dflt db (x, now) = (None, db')" and c: "content_write x = Some i"
    and n: "seq_of db i = Some n"
  shows "seq_of db' i = Some (n + 1)"
proof (cases x)
  case (OpUpdate j b)
  with A c Update_effect[of db i b now None db'] show ?thesis
    by (intro seq_of_rewrite[where f = "\<lambda>r. r\<lparr>modified := now, seq := seq r + 1, blob := Some b\<rparr>"
          and db = db] n) auto
next
  case (OpUpdateWithOwner j b own)
  with A c UpdateWithOwner_effect[of db i b own now None db'] show ?thesis
    by (intro seq_of_rewrite[where f = "\<lambda>r. r\<lparr>modified := now, seq := seq r + 1, blob := Some b\<rparr>"
          and db = db] n) auto
next
  case (OpPatch j b)
  with A c Patch_effect[of db i b now None db'] show ?thesis
    by (intro seq_of_rewrite[where f = "\<lambda>r. r\<lparr>modified := now, seq := seq r + 1,
              blob := map_option (\<lambda>old. jsonb_concat old b) (blob r)\<rparr>" and db = db] n) auto
next
  case (OpPatchWithOwner j b own)
  with A c PatchWithOwner_effect[of db i b own now None db'] show ?thesis
    by (intro seq_of_rewrite[where f = "\<lambda>r. r\<lparr>modified := now, seq := seq r + 1,
              blob := map_option (\<lambda>old. jsonb_concat old b) (blob r)\<rparr>" and db = db] n) auto
next
  case (OpSmartUpdateWithOwner j b own)
  with A c have S: "SmartUpdateWithOwner L db i b own now = (None, db')" by simp
  from SmartUpdateWithOwner_effect[OF S]
  consider "datasets db' = map (\<lambda>r. if rid r = i then r\<lparr>modified := now, seq := seq r + 1,
                     blob := map_option (\<lambda>old. jsonb_concat old b) (blob r)\<rparr> else r)
              (datasets db)"
    | "datasets db' = map (\<lambda>r. if rid r = i then r\<lparr>modified := now, seq := seq r + 1,
                     blob := Some b\<rparr> else r) (datasets db)"
    by blast
  then show ?thesis
  proof cases
    case 1
    then show ?thesis
      by (intro seq_of_rewrite[where f = "\<lambda>r. r\<lparr>modified := now, seq := seq r + 1,
              blob := map_option (\<lambda>old. jsonb_concat old b) (blob r)\<rparr>" and db = db] n) auto
  next
    case 2
    then show ?thesis
      by (intro seq_of_rewrite[where f = "\<lambda>r. r\<lparr>modified := now, seq := seq r + 1,
              blob := Some b\<rparr>" and db = db] n) auto
  qed
next
  case (OpStorePublished j b)
  with A c StorePublished_effect[of db i b now None db'] show ?thesis
    by (intro seq_of_rewrite[where f = "\<lambda>r. r\<lparr>blob := Some b, published := True,
              synced := now, seq := seq r + 1\<rparr>" and db = db] n) auto
qed (use c in simp_all)

lemma publish_only_step:
  assumes A: "apply_op L dflt db (x, now) = (None, db')" and c: "publish_only x = Some (i, p)"
    and r: "lookup_row db i = Some r"
  shows "lookup_row db' i = Some (r\<lparr>published := p, synced := now\<rparr>)"
proof (cases x)
  case (OpMarkPublished j q)
  with A c MarkPublished_effect[of db i p now None db'] r show ?thesis
    by (auto simp: lookup_row_def find_map_update_same)
next
  case (OpMarkPublishedWithOwner j own q)
  with A c MarkPublishedWithOwner_effect[of db i own p now None db'] r show ?thesis
    by (auto simp: lookup_row_def find_map_update_same)
qed (use c in simp_all)

lemma updateByService_step:
  assumes "updateByService tx i b now = (None, tx')"
    and "find (\<lambda>x. rid x = i) (work tx) = Some r"
  shows "find (\<lambda>x. rid x = i) (work tx') =
           Some (r\<lparr>synced := now, seq := seq r + 1, blob := Some b\<rparr>)"
  using updateByService_effect[OF assms(1)] assms(2)
  by (simp add: find_map_update_same)

text \<open>
  C7. Along every sequence of operations on a relation with unique ids, whatever the
  engine does, the \<open>seq\<close> values of a record that exists in every state of the sequence
  are in non-decreasing order. Each accepted content-mutating write (\<open>Update\<close>,
  \<open>UpdateWithOwner\<close>, \<open>Patch\<close>, \<open>PatchWithOwner\<close>, \<open>SmartUpdateWithOwner\<close>, \<open>StorePublished\<close>)
  raises the \<open>seq\<close> of its record by exactly 1, and so does an accepted \<open>updateByService\<close>
  inside its transaction; an accepted \<open>MarkPublished\<close> or \<open>MarkPublishedWithOwner\<close> sets
  \<open>published\<close> and \<open>synced\<close> and leaves \<open>seq\<close>, \<open>blob\<close> and every other column as they were.
\<close>

theorem seq_monotone:
  "(wf_table (datasets db) \<and> (\<forall>s \<in> set (trace L dflt db ops). seq_of s i \<noteq> None) \<longrightarrow>
      sorted (map (\<lambda>s. the (seq_of s i)) (trace L dflt db ops))) \<and>
   (\<forall>n db'. apply_op L dflt db (x, now) = (None, db') \<and> content_write x = Some i \<and>
        seq_of db i = Some n \<longrightarrow> seq_of db' i = Some (n + 1)) \<and>
   (\<forall>p r db'. apply_op L dflt db (x, now) = (None, db') \<and> publish_only x = Some (i, p) \<and>
        lookup_row db i = Some r \<longrightarrow>
        lookup_row db' i = Some (r\<lparr>published := p, synced := now\<rparr>)) \<and>
   (\<forall>r tx'. updateByService tx i b now = (None, tx') \<and>
        find (\<lambda>x. rid x = i) (work tx) = Some r \<longrightarrow>
        find (\<lambda>x. rid x = i) (work tx') =
          Some (r\<lparr>synced := now, seq := seq r + 1, blob := Some b\<rparr>))"
proof (intro conjI allI impI; (elim conjE)?)
  assume "wf_table (datasets db)" "\<forall>s \<in> set (trace L dflt db ops). seq_of s i \<noteq> None"
  then show "sorted (map (\<lambda>s. the (seq_of s i)) (trace L dflt db ops))"
    by (rule trace_sorted)
next
  fix n db'
  assume "apply_op L dflt db (x, now) = (None, db')" "content_write x = Some i"
    "seq_of db i = Some n"
  then show "seq_of db' i = Some (n + 1)" by (rule content_write_step)
next
  fix p r db'
  assume "apply_op L dflt db (x, now) = (None, db')" "publish_only x = Some (i, p)"
    "lookup_row db i = Some r"
  then show "lookup_row db' i = Some (r\<lparr>published := p, synced := now\<rparr>)"
    by (rule publish_only_step)
next
  fix r tx'
  assume "updateByService tx i b now = (None, tx')" "find (\<lambda>x. rid x = i) (work tx) = Some r"
  then show "find (\<lambda>x. rid x = i) (work tx') =
          Some (r\<lparr>synced := now, seq := seq r + 1, blob := Some b\<rparr>)"
    by (rule updateByService_step)
qed

theorem seq_monotone_witness:
  "wf_table (datasets db_a) \<and>
   map (\<lambda>s. seq_of s 1) (trace two_families row_default db_a
        [(OpUpdate 1 (JObj [(''title'', JStr ''new'')]), 20), (OpMarkPublished 1 True, 21),
         (OpPatchWithOwner 1 (JObj [(''extra'', JNull)]) 8, 22),
         (OpStorePublished 1 (JObj []), 23)]) = [Some 0, Some 1, Some 1, Some 1, Some 2] \<and>
   map (\<lambda>s. the (seq_of s 1)) (trace two_families row_default db_a
        [(OpUpdate 1 (JObj [(''title'', JStr ''new'')]), 20), (OpMarkPublished 1 True, 21),
         (OpPatchWithOwner 1 (JObj [(''extra'', JNull)]) 8, 22),
         (OpStorePublished 1 (JObj []), 23)]) = [0, 1, 1, 1, 2] \<and>
   sorted [0, 1, 1, 1, 2 :: int] \<and>
   apply_op two_families row_default db_a (OpUpdate 1 (JObj [(''title'', JStr ''new'')]), 20)
     = (None, \<lparr>datasets = [row_a\<lparr>modified := 20, seq := 1,
                 blob := Some (JObj [(''title'', JStr ''new'')])\<rparr>], faults = []\<rparr>) \<and>
   content_write (OpUpdate 1 (JObj [(''title'', JStr ''new'')])) = Some 1 \<and>
   seq_of db_a 1 = Some 0 \<and>
   seq_of \<lparr>datasets = [row_a\<lparr>modified := 20, seq := 1,
                 blob := Some (JObj [(''title'', JStr ''new'')])\<rparr>], faults = []\<rparr> 1 = Some 1 \<and>
   apply_op two_families row_default db_a (OpMarkPublished 1 True, 21)
     = (None, \<lparr>datasets = [row_a\<lparr>published := True, synced := 21\<rparr>], faults = []\<rparr>) \<and>
   publish_only (OpMarkPublished 1 True) = Some (1, True) \<and>
   lookup_row db_a 1 = Some row_a \<and>
   lookup_row \<lparr>datasets = [row_a\<lparr>published := True, synced := 21\<rparr>], faults = []\<rparr> 1
     = Some (row_a\<lparr>published := True, synced := 21\<rparr>) \<and>
   updateByService \<lparr>committed = [row_a], work = [row_a], pending = []\<rparr> 1 (JObj []) 25
     = (None, \<lparr>committed = [row_a],
               work = [row_a\<lparr>synced := 25, seq := 1, blob := Some (JObj [])\<rparr>], pending = []\<rparr>) \<and>
   find (\<lambda>x. rid x = 1) (work \<lparr>committed = [row_a], work = [row_a], pending = []\<rparr>)
     = Some row_a \<and>
   find (\<lambda>x. rid x = 1) (work \<lparr>committed = [row_a],
               work = [row_a\<lparr>synced := 25, seq := 1, blob := Some (JObj [])\<rparr>], pending = []\<rparr>)
     = Some (row_a\<lparr>synced := 25, seq := 1, blob := Some (JObj [])\<rparr>)"
proof -
  let ?b = "JObj [(''title'', JStr ''new'')]"
  let ?ops = "[(OpUpdate 1 ?b, 20), (OpMarkPublished 1 True, 21),
         (OpPatchWithOwner 1 (JObj [(''extra'', JNull)]) 8, 22),
         (OpStorePublished 1 (JObj []), 23)]"
  let ?r1 = "row_a\<lparr>modified := 20, seq := 1, blob := Some ?b\<rparr>"
  let ?r2 = "?r1\<lparr>published := True, synced := 21\<rparr>"
  let ?r4 = "?r2\<lparr>blob := Some (JObj []), published := True, synced := 23, seq := 2\<rparr>"
  let ?db1 = "\<lparr>datasets = [?r1], faults = []\<rparr>"
  let ?db2 = "\<lparr>datasets = [?r2], faults = []\<rparr>"
  let ?db4 = "\<lparr>datasets = [?r4], faults = []\<rparr>"
  let ?dbm = "\<lparr>datasets = [row_a\<lparr>published := True, synced := 21\<rparr>], faults = []\<rparr>"
  let ?tx0 = "\<lparr>committed = [row_a], work = [row_a], pending = []\<rparr>"
  let ?tx1 = "\<lparr>committed = [row_a],
               work = [row_a\<lparr>synced := 25, seq := 1, blob := Some (JObj [])\<rparr>], pending = []\<rparr>"
  have wf: "wf_table (datasets db_a)" by (simp add: wf_table_def db_a_def)
  have s1: "apply_op two_families row_default db_a (OpUpdate 1 ?b, 20) = (None, ?db1)"
    by (simp add: Update_def Begin_def update_def Exec_def sql_update_def Commit_def
          db_a_def row_a_def)
  have s2: "apply_op two_families row_default ?db1 (OpMarkPublished 1 True, 21) = (None, ?db2)"
    by (simp add: MarkPublished_def Begin_def markPublished_def Exec_def sql_update_def
          Commit_def row_a_def)
  have s3: "apply_op two_families row_default ?db2
      (OpPatchWithOwner 1 (JObj [(''extra'', JNull)]) 8, 22) = (Some ErrNotOwner, ?db2)"
    by (simp add: PatchWithOwner_def Begin_def Tx_CheckOwner_def QueryRow_def Rollback_def
          row_a_def)
  have s4: "apply_op two_families row_default ?db2 (OpStorePublished 1 (JObj []), 23)
      = (None, ?db4)"
    by (simp add: StorePublished_def Begin_def Exec_def sql_update_def Commit_def row_a_def)
  have tr: "trace two_families row_default db_a ?ops = [db_a, ?db1, ?db2, ?db2, ?db4]"
    by (simp only: trace.simps s1 s2 s3 s4 snd_conv)
  have q: "seq_of db_a 1 = Some 0" "seq_of ?db1 1 = Some 1" "seq_of ?db2 1 = Some 1"
    "seq_of ?db4 1 = Some 2"
    by (simp_all add: seq_of_def lookup_row_def db_a_def row_a_def)
  have alive: "\<forall>s \<in> set (trace two_families row_default db_a ?ops). seq_of s 1 \<noteq> None"
    unfolding tr by (simp add: seq_of_def lookup_row_def db_a_def row_a_def)
  have al: "map (\<lambda>s. seq_of s 1) (trace two_families row_default db_a ?ops)
      = [Some 0, Some 1, Some 1, Some 1, Some 2]"
    unfolding tr by (simp add: seq_of_def lookup_row_def db_a_def row_a_def)
  have m: "map (\<lambda>s. the (seq_of s 1)) (trace two_families row_default db_a ?ops)
      = [0, 1, 1, 1, 2]"
    unfolding tr by (simp add: seq_of_def lookup_row_def db_a_def row_a_def)
  have "sorted (map (\<lambda>s. the (seq_of s 1)) (trace two_families row_default db_a ?ops))"
    using seq_monotone[where db = db_a and L = two_families and dflt = row_default
        and ops = ?ops and i = 1] wf alive by blast
  then have S: "sorted [0, 1, 1, 1, 2 :: int]" by (simp only: m)
  have c: "content_write (OpUpdate 1 ?b) = Some 1" by simp
  have "seq_of ?db1 1 = Some (0 + 1)"
    using seq_monotone[where db = db_a and L = two_families and dflt = row_default
        and x = "OpUpdate 1 ?b" and now = 20 and i = 1] s1 c q(1) by blast
  then have C: "seq_of ?db1 1 = Some 1" by simp
  have sm: "apply_op two_families row_default db_a (OpMarkPublished 1 True, 21) = (None, ?dbm)"
    by (simp add: MarkPublished_def Begin_def markPublished_def Exec_def sql_update_def
          Commit_def db_a_def row_a_def)
  have pm: "publish_only (OpMarkPublished 1 True) = Some (1, True)" by simp
  have l1: "lookup_row db_a 1 = Some row_a" by (simp add: lookup_row_def db_a_def row_a_def)
  have P: "lookup_row ?dbm 1 = Some (row_a\<lparr>published := True, synced := 21\<rparr>)"
    using seq_monotone[where db = db_a and L = two_families and dflt = row_default
        and x = "OpMarkPublished 1 True" and now = 21 and i = 1] sm pm l1 by blast
  have u: "updateByService ?tx0 1 (JObj []) 25 = (None, ?tx1)"
    by (simp add: updateByService_def Exec_def sql_update_def row_a_def)
  have f0: "find (\<lambda>x. rid x = 1) (work ?tx0) = Some row_a" by (simp add: row_a_def)
  have "find (\<lambda>x. rid x = 1) (work ?tx1)
      = Some (row_a\<lparr>synced := 25, seq := seq row_a + 1, blob := Some (JObj [])\<rparr>)"
    using seq_monotone[where tx = ?tx0 and i = 1 and b = "JObj []" and now = 25] u f0 by blast
  then have U: "find (\<lambda>x. rid x = 1) (work ?tx1)
      = Some (row_a\<lparr>synced := 25, seq := 1, blob := Some (JObj [])\<rparr>)"
    by (simp add: row_a_def)
  from wf al m S s1 c q(1) C sm pm l1 P u f0 U show ?thesis by (intro conjI)
qed

end
